theory Spec2Isabelle
  imports Complex_Main "HOL-Library.Signed_Division" "HOL-Library.Log_Nat"
begin

section \<open>Numbers and shared data\<close>

text \<open>
  A JavaScript \<open>number\<close> is an IEEE 754 double. The numbers that the program only ever
  produces as whole numbers are modelled as \<^typ>\<open>int\<close>: the results of \<open>Math.floor\<close>, the tile
  indices, and the two grid parameters \<open>gridX\<close> and \<open>gridY\<close> (App.vue initialises them to 16
  and GridSettings writes only clamped \<open>parseInt\<close> results); their arithmetic is exact in
  doubles. The intrinsic size of a decoded image is a pair of naturals. Every other number
  is a \<^typ>\<open>real\<close>.

  The hit test turns a quotient into a cell number, so there the rounding of each
  operation decides the result: the arithmetic of \<open>screenToImage\<close>, of the cell size and of
  \<open>getTileAtPosition\<close> is modelled with the rounding of doubles (\<open>toDouble\<close>, to nearest,
  ties to even). The arithmetic of zoom, pan and reset is modelled exactly; what is stated
  about it holds of the program up to that rounding.

  The reals have no \<open>Infinity\<close> and no \<open>NaN\<close>: a division by zero and an overflow are
  outside the model. Every statement below either carries the hypotheses that keep the
  divisors non-zero or concerns a path that evaluates no such division.
\<close>

text \<open>Rounding to the nearest integer, ties to the even one.\<close>

definition roundHalfEven :: "real \<Rightarrow> int" where
  "roundHalfEven x =
     (let f = \<lfloor>x\<rfloor>; d = x - real_of_int f
      in if d < 1 / 2 then f
         else if 1 / 2 < d then f + 1
         else if even f then f else f + 1)"

text \<open>The exponent \<open>e\<close> of a positive number \<open>a\<close>: \<open>2 ^ e \<le> a < 2 ^ (e + 1)\<close>.\<close>

definition binaryExponent :: "real \<Rightarrow> int" where
  "binaryExponent a = (if 1 \<le> a then bitlen \<lfloor>a\<rfloor> - 1 else - bitlen (\<lceil>1 / a\<rceil> - 1))"

definition pow2 :: "int \<Rightarrow> real" where
  "pow2 e = (if 0 \<le> e then 2 ^ nat e else 1 / 2 ^ nat (- e))"

text \<open>
  The double nearest to a real: a significand of 53 bits at the exponent of the number,
  and steps of \<open>2 ^ - 1074\<close> below \<open>2 ^ - 1022\<close>.
\<close>

definition toDouble :: "real \<Rightarrow> real" where
  "toDouble x =
     (if x = 0 then 0
      else (let e = max (binaryExponent \<bar>x\<bar>) (- 1022);
                u = pow2 (e - 52)
            in real_of_int (roundHalfEven (x / u)) * u))"

text \<open>The subtraction and the division of two doubles.\<close>

definition numSub :: "real \<Rightarrow> real \<Rightarrow> real" where
  "numSub a b = toDouble (a - b)"

definition numDiv :: "real \<Rightarrow> real \<Rightarrow> real" where
  "numDiv a b = toDouble (a / b)"

datatype grid_mode = Size | Count

record tile =
  index :: int
  row :: int
  col :: int

section \<open>The application shell (App.vue, ImageUploader.vue, GridSettings.vue)\<close>

text \<open>
  A dropped or chosen \<open>File\<close>: its name, its MIME type, and the object URL that
  \<open>URL.createObjectURL\<close> hands out for it.
\<close>

record file_el =
  fileName :: string
  fileType :: string
  objectURL :: string

text \<open>The refs of App.vue together with its \<open>dragCounter\<close>.\<close>

record app =
  imageUrl :: "string option"
  gridX :: int
  gridY :: int
  gridMode :: grid_mode
  showNumbers :: bool
  selectedTile :: "tile option"
  imageName :: string
  isDragging :: bool
  dragCounter :: int

datatype axis = AxisX | AxisY

text \<open>
  \<open>name.replace(/\.[^/.]+$/, '')\<close>: the pattern matches a dot followed, up to the end of
  the name, by one or more characters that are neither a dot nor a slash. Such a match can
  only start right before the longest suffix free of dots and slashes.
\<close>

definition stripExtension :: "string \<Rightarrow> string" where
  "stripExtension nm =
     (let ext = takeWhile (\<lambda>c. c \<noteq> CHR ''.'' \<and> c \<noteq> CHR ''/'') (rev nm)
      in if ext \<noteq> [] \<and> length ext < length nm \<and> rev nm ! length ext = CHR ''.''
         then take (length nm - length ext - 1) nm
         else nm)"

definition handleImageLoad :: "string \<Rightarrow> string \<Rightarrow> app \<Rightarrow> app" where
  "handleImageLoad url nm a =
     a\<lparr>imageUrl := Some url,
       imageName := (let n = stripExtension nm in if n = [] then ''spritesheet'' else n),
       selectedTile := None\<rparr>"

definition handleTileClick :: "tile \<Rightarrow> app \<Rightarrow> app" where
  "handleTileClick t a = a\<lparr>selectedTile := Some t\<rparr>"

definition handleDragEnter :: "app \<Rightarrow> app" where
  "handleDragEnter a = a\<lparr>dragCounter := dragCounter a + 1, isDragging := True\<rparr>"

definition handleDragLeave :: "app \<Rightarrow> app" where
  "handleDragLeave a =
     (let a1 = a\<lparr>dragCounter := dragCounter a - 1\<rparr>
      in if dragCounter a1 = 0 then a1\<lparr>isDragging := False\<rparr> else a1)"

text \<open>
  \<open>handleDrop\<close> gets the files of the drop's \<open>dataTransfer\<close>; a missing \<open>dataTransfer\<close>
  counts as no files.
\<close>

definition handleDrop :: "file_el list \<Rightarrow> app \<Rightarrow> app" where
  "handleDrop files a =
     (let a1 = a\<lparr>dragCounter := 0, isDragging := False\<rparr>
      in case files of
           [] \<Rightarrow> a1
         | f # rest \<Rightarrow>
             if take 6 (fileType f) = ''image/''
             then handleImageLoad (objectURL f) (fileName f) a1
             else a1)"

text \<open>
  ImageUploader: \<open>handleFileChange\<close> returns the \<open>image-loaded\<close> events it emits, each
  with a URL and a name. The template of App.vue binds the event to \<open>handleImageLoad\<close>.
\<close>

definition handleFileChange :: "file_el list \<Rightarrow> (string \<times> string) list" where
  "handleFileChange files =
     (case files of
        [] \<Rightarrow> []
      | f # rest \<Rightarrow> if take 6 (fileType f) = ''image/'' then [(objectURL f, fileName f)] else [])"

definition uploadFiles :: "file_el list \<Rightarrow> app \<Rightarrow> app" where
  "uploadFiles files a = fold (\<lambda>ev. handleImageLoad (fst ev) (snd ev)) (handleFileChange files) a"

text \<open>
  GridSettings: \<open>handleInput\<close> gets the result of \<open>parseInt\<close> on the field (\<open>None\<close> for
  \<open>NaN\<close>) and writes the clamped value through the \<open>v-model\<close> of its axis; \<open>toggleMode\<close>
  flips the mode.
\<close>

definition handleInput :: "int option \<Rightarrow> axis \<Rightarrow> app \<Rightarrow> app" where
  "handleInput parsed ax a =
     (let v = (case parsed of None \<Rightarrow> 1 | Some n \<Rightarrow> if n = 0 then 1 else n);
          maxVal = (if gridMode a = Size then 512 else 256);
          clampedValue = max 1 (min maxVal v)
      in case ax of
           AxisX \<Rightarrow> a\<lparr>gridX := clampedValue\<rparr>
         | AxisY \<Rightarrow> a\<lparr>gridY := clampedValue\<rparr>)"

definition toggleMode :: "app \<Rightarrow> app" where
  "toggleMode a = a\<lparr>gridMode := (if gridMode a = Size then Count else Size)\<rparr>"

section \<open>The image viewer (ImageViewer.vue)\<close>

record image_el =
  naturalWidth :: nat
  naturalHeight :: nat

text \<open>The container element: its client size and the size of its bounding rectangle.\<close>

record container_el =
  clientWidth :: real
  clientHeight :: real
  rectWidth :: real
  rectHeight :: real

text \<open>The canvas element: the corner of its bounding rectangle in client coordinates.\<close>

record canvas_el =
  rectLeft :: real
  rectTop :: real

text \<open>
  What the 2D context is asked to do during one \<open>draw()\<close>. The current fill style, stroke
  style and line width are recorded in the operation that uses them.
\<close>

datatype canvas_op =
    SetCanvasSize real real
  | CtxScale real real
  | CtxTranslate real real
  | CtxSave
  | CtxRestore
  | FillRect string real real real real
  | DrawImage real real
  | StrokeLine string real real real real real
  | StrokeRect string real real real real real
  | SetFont real
  | StrokeText string real int real real
  | FillText string int real real

text \<open>
  The component: its props (\<open>gridX\<close> \dots \<open>selectedTile\<close>), the two template refs, the
  decoded image, the viewport and gesture refs, the device pixel ratio of the window, and
  what is painted on the canvas (\<open>frame\<close>).
\<close>

record viewer =
  gridX :: int
  gridY :: int
  gridMode :: grid_mode
  showNumbers :: bool
  selectedTile :: "tile option"
  containerRef :: "container_el option"
  canvasRef :: "canvas_el option"
  image :: "image_el option"
  imageLoaded :: bool
  scale :: real
  offsetX :: real
  offsetY :: real
  isPanning :: bool
  lastMouseX :: real
  lastMouseY :: real
  hoveredTile :: "int option"
  devicePixelRatio :: real
  frame :: "canvas_op list"

text \<open>
  The fields of a DOM \<open>MouseEvent\<close> that matter here. \<open>button\<close> is the DOM's code of the
  button that changed: 0 the primary (left) button, 1 the auxiliary (middle) button,
  2 the secondary (right) button. A \<open>WheelEvent\<close> is a mouse event with a \<open>deltaY\<close>.
\<close>

record mouse_event =
  button :: int
  shiftKey :: bool
  ctrlKey :: bool
  altKey :: bool
  metaKey :: bool
  clientX :: real
  clientY :: real

record wheel_event = mouse_event +
  deltaY :: real

definition MIN_SCALE :: real where
  "MIN_SCALE = 1 / 10"

definition MAX_SCALE :: real where
  "MAX_SCALE = 10"

section \<open>Grid geometry\<close>

text \<open>\<open>image.value?.naturalWidth || 0\<close>: no image counts as width 0.\<close>

definition imageWidth :: "viewer \<Rightarrow> real" where
  "imageWidth s = (case image s of None \<Rightarrow> 0 | Some img \<Rightarrow> real (naturalWidth img))"

definition imageHeight :: "viewer \<Rightarrow> real" where
  "imageHeight s = (case image s of None \<Rightarrow> 0 | Some img \<Rightarrow> real (naturalHeight img))"

definition cellWidth :: "viewer \<Rightarrow> real" where
  "cellWidth s =
     (if gridMode s = Size then real_of_int (gridX s)
      else numDiv (imageWidth s) (real_of_int (gridX s)))"

definition cellHeight :: "viewer \<Rightarrow> real" where
  "cellHeight s =
     (if gridMode s = Size then real_of_int (gridY s)
      else numDiv (imageHeight s) (real_of_int (gridY s)))"

text \<open>
  \<open>Math.floor(q) || 1\<close>: a floor of 0 is falsy and is replaced by 1. The quotient is one of
  two whole numbers, and it is floored as the exact quotient.
\<close>

definition colCount :: "viewer \<Rightarrow> int" where
  "colCount s =
     (if gridMode s = Size
      then (let n = \<lfloor>imageWidth s / real_of_int (gridX s)\<rfloor> in if n = 0 then 1 else n)
      else gridX s)"

definition rowCount :: "viewer \<Rightarrow> int" where
  "rowCount s =
     (if gridMode s = Size
      then (let n = \<lfloor>imageHeight s / real_of_int (gridY s)\<rfloor> in if n = 0 then 1 else n)
      else gridY s)"

definition totalCells :: "viewer \<Rightarrow> int" where
  "totalCells s = colCount s * rowCount s"

section \<open>Rendering (draw)\<close>

text \<open>
  The checkerboard loops of \<open>draw\<close>: \<open>for (x = 0; x < imageWidth; x += checkSize)\<close> inside
  the same loop over \<open>y\<close>, with \<open>checkSize = 10\<close>. The loop variables run over multiples
  of 10, so \<open>x / checkSize\<close> is the whole number \<open>x div 10\<close>.
\<close>

function checkerRow :: "nat \<Rightarrow> nat \<Rightarrow> nat \<Rightarrow> canvas_op list" where
  "checkerRow w y x =
     (if x < w
      then FillRect (if (x div 10 + y div 10) mod 2 = 0 then ''#2a2a3e'' else ''#1a1a2e'')
             (real x) (real y) 10 10 # checkerRow w y (x + 10)
      else [])"
  by pat_completeness auto
termination
  by (relation "measure (\<lambda>(w, y, x). w - x)") auto

function checkerboard :: "nat \<Rightarrow> nat \<Rightarrow> nat \<Rightarrow> canvas_op list" where
  "checkerboard w h y =
     (if y < h then checkerRow w y 0 @ checkerboard w h (y + 10) else [])"
  by pat_completeness auto
termination
  by (relation "measure (\<lambda>(w, h, y). h - y)") auto

text \<open>The grid: \<open>colCount + 1\<close> vertical and \<open>rowCount + 1\<close> horizontal lines.\<close>

definition gridLines :: "viewer \<Rightarrow> canvas_op list" where
  "gridLines s =
     map (\<lambda>i. let x = real_of_int i * cellWidth s
              in StrokeLine ''rgba(233, 69, 96, 0.6)'' (1 / scale s) x 0 x (imageHeight s))
       [0..colCount s] @
     map (\<lambda>j. let y = real_of_int j * cellHeight s
              in StrokeLine ''rgba(233, 69, 96, 0.6)'' (1 / scale s) 0 y (imageWidth s) y)
       [0..rowCount s]"

text \<open>
  The hovered tile: its column and row are recovered from the stored index by
  \<open>hoveredTile % colCount\<close> (the remainder of JavaScript takes the sign of the dividend:
  \<open>smod\<close>) and \<open>Math.floor(hoveredTile / colCount)\<close>. The test is on \<open>hoveredTile\<close> alone.
\<close>

definition hoverHighlight :: "viewer \<Rightarrow> canvas_op list" where
  "hoverHighlight s =
     (case hoveredTile s of
        None \<Rightarrow> []
      | Some h \<Rightarrow>
          (let c = h smod colCount s;
               r = \<lfloor>real_of_int h / real_of_int (colCount s)\<rfloor>
           in [FillRect ''rgba(233, 69, 96, 0.2)''
                 (real_of_int c * cellWidth s) (real_of_int r * cellHeight s)
                 (cellWidth s) (cellHeight s)]))"

definition selectionHighlight :: "viewer \<Rightarrow> canvas_op list" where
  "selectionHighlight s =
     (case selectedTile s of
        None \<Rightarrow> []
      | Some t \<Rightarrow>
          [FillRect ''rgba(233, 69, 96, 0.4)''
             (real_of_int (col t) * cellWidth s) (real_of_int (row t) * cellHeight s)
             (cellWidth s) (cellHeight s),
           StrokeRect ''#e94560'' (2 / scale s)
             (real_of_int (col t) * cellWidth s) (real_of_int (row t) * cellHeight s)
             (cellWidth s) (cellHeight s)])"

text \<open>
  The labels: two nested counting loops with the running counter \<open>index\<close>, which is
  incremented once per cell. \<open>cellLabel\<close> is the body of the inner loop: the outline pass
  and the fill pass of one label. Each loop returns its operations and the counter it
  ends with.
\<close>

definition cellLabel :: "viewer \<Rightarrow> int \<Rightarrow> int \<Rightarrow> int \<Rightarrow> canvas_op list" where
  "cellLabel s r c i =
     (let x = real_of_int c * cellWidth s + cellWidth s / 2;
          y = real_of_int r * cellHeight s + cellHeight s / 2
      in [StrokeText ''rgba(0, 0, 0, 0.8)'' (3 / scale s) i x y,
          FillText (if (case selectedTile s of None \<Rightarrow> False | Some t \<Rightarrow> index t = i)
                    then ''#fff'' else ''rgba(255, 255, 255, 0.9)'') i x y])"

function labelCols :: "viewer \<Rightarrow> int \<Rightarrow> int \<Rightarrow> int \<Rightarrow> canvas_op list \<times> int" where
  "labelCols s r c i =
     (if c < colCount s
      then (let rest = labelCols s r (c + 1) (i + 1)
            in (cellLabel s r c i @ fst rest, snd rest))
      else ([], i))"
  by pat_completeness auto
termination
  by (relation "measure (\<lambda>(s, r, c, i). nat (colCount s - c))") auto

function labelRows :: "viewer \<Rightarrow> int \<Rightarrow> int \<Rightarrow> canvas_op list" where
  "labelRows s r i =
     (if r < rowCount s
      then (let cols = labelCols s r 0 i
            in fst cols @ labelRows s (r + 1) (snd cols))
      else [])"
  by pat_completeness auto
termination
  by (relation "measure (\<lambda>(s, r, i). nat (rowCount s - r))") auto

definition numberLabels :: "viewer \<Rightarrow> canvas_op list" where
  "numberLabels s =
     (if showNumbers s
      then SetFont (max 8 (min 14 (min (cellWidth s) (cellHeight s) * (2 / 5)))) #
           labelRows s 0 0
      else [])"

text \<open>
  One frame, for a mounted container and a decoded image. Assigning \<open>canvas.width\<close>
  clears the canvas, so the frame is everything the canvas shows afterwards.
\<close>

definition drawFrame :: "viewer \<Rightarrow> container_el \<Rightarrow> image_el \<Rightarrow> canvas_op list" where
  "drawFrame s cont img =
     (let dpr = (if devicePixelRatio s = 0 then 1 else devicePixelRatio s)
      in [SetCanvasSize (rectWidth cont * dpr) (rectHeight cont * dpr),
          CtxScale dpr dpr,
          FillRect ''#1a1a2e'' 0 0 (rectWidth cont) (rectHeight cont),
          CtxSave,
          CtxTranslate (offsetX s) (offsetY s),
          CtxScale (scale s) (scale s)] @
         checkerboard (naturalWidth img) (naturalHeight img) 0 @
         [DrawImage 0 0] @
         gridLines s @
         hoverHighlight s @
         selectionHighlight s @
         numberLabels s @
         [CtxRestore])"

text \<open>The operations that paint in the colour of the hover highlight.\<close>

fun isHoverFill :: "canvas_op \<Rightarrow> bool" where
  "isHoverFill (FillRect st x y w h) = (st = ''rgba(233, 69, 96, 0.2)'')"
| "isHoverFill other = False"

text \<open>\<open>draw\<close> returns at once when the canvas, the image or the container is missing.\<close>

definition draw :: "viewer \<Rightarrow> viewer" where
  "draw s =
     (case canvasRef s of
        None \<Rightarrow> s
      | Some cv \<Rightarrow>
          (case image s of
             None \<Rightarrow> s
           | Some img \<Rightarrow>
               (case containerRef s of
                  None \<Rightarrow> s
                | Some cont \<Rightarrow> s\<lparr>frame := drawFrame s cont img\<rparr>)))"

section \<open>Viewport and hit test\<close>

definition resetView :: "viewer \<Rightarrow> viewer" where
  "resetView s =
     (case containerRef s of
        None \<Rightarrow> s
      | Some cont \<Rightarrow>
          (case image s of
             None \<Rightarrow> s
           | Some img \<Rightarrow>
               (let containerWidth = clientWidth cont;
                    containerHeight = clientHeight cont;
                    imgWidth = real (naturalWidth img);
                    imgHeight = real (naturalHeight img);
                    scaleX = (containerWidth - 40) / imgWidth;
                    scaleY = (containerHeight - 40) / imgHeight;
                    newScale = min scaleX (min scaleY 1)
                in s\<lparr>scale := newScale,
                     offsetX := (containerWidth - imgWidth * newScale) / 2,
                     offsetY := (containerHeight - imgHeight * newScale) / 2\<rparr>)))"

text \<open>The \<open>onload\<close> callback of \<open>loadImage\<close>, for the decoded image.\<close>

definition onload :: "image_el \<Rightarrow> viewer \<Rightarrow> viewer" where
  "onload img s = draw (resetView (s\<lparr>image := Some img, imageLoaded := True\<rparr>))"

definition screenToImage :: "viewer \<Rightarrow> real \<Rightarrow> real \<Rightarrow> real \<times> real" where
  "screenToImage s screenX screenY =
     (case canvasRef s of
        None \<Rightarrow> (0, 0)
      | Some rect \<Rightarrow>
          (numDiv (numSub (numSub screenX (rectLeft rect)) (offsetX s)) (scale s),
           numDiv (numSub (numSub screenY (rectTop rect)) (offsetY s)) (scale s)))"

definition getTileAtPosition :: "viewer \<Rightarrow> real \<Rightarrow> real \<Rightarrow> tile option" where
  "getTileAtPosition s imgX imgY =
     (if imgX < 0 \<or> imgY < 0 \<or> imgX \<ge> imageWidth s \<or> imgY \<ge> imageHeight s
      then None
      else (let c = \<lfloor>numDiv imgX (cellWidth s)\<rfloor>;
                r = \<lfloor>numDiv imgY (cellHeight s)\<rfloor>
            in if c \<ge> colCount s \<or> r \<ge> rowCount s
               then None
               else Some \<lparr>index = r * colCount s + c, row = r, col = c\<rparr>))"

section \<open>Input handlers\<close>

definition handleWheel :: "wheel_event \<Rightarrow> viewer \<Rightarrow> viewer" where
  "handleWheel e s =
     (case canvasRef s of
        None \<Rightarrow> s
      | Some rect \<Rightarrow>
          (let mouseX = clientX e - rectLeft rect;
               mouseY = clientY e - rectTop rect;
               zoomFactor = (if deltaY e > 0 then 9 / 10 else 11 / 10);
               newScale = max MIN_SCALE (min MAX_SCALE (scale s * zoomFactor));
               scaleRatio = newScale / scale s
           in draw (s\<lparr>offsetX := mouseX - (mouseX - offsetX s) * scaleRatio,
                      offsetY := mouseY - (mouseY - offsetY s) * scaleRatio,
                      scale := newScale\<rparr>)))"

definition handleMouseDown :: "mouse_event \<Rightarrow> viewer \<Rightarrow> viewer" where
  "handleMouseDown e s =
     (if button e = 1 \<or> (button e = 0 \<and> shiftKey e)
      then s\<lparr>isPanning := True, lastMouseX := clientX e, lastMouseY := clientY e\<rparr>
      else s)"

definition handleMouseMove :: "mouse_event \<Rightarrow> viewer \<Rightarrow> viewer" where
  "handleMouseMove e s =
     (if isPanning s
      then (let dx = clientX e - lastMouseX s;
                dy = clientY e - lastMouseY s
            in draw (s\<lparr>offsetX := offsetX s + dx, offsetY := offsetY s + dy,
                       lastMouseX := clientX e, lastMouseY := clientY e\<rparr>))
      else (let imgPos = screenToImage s (clientX e) (clientY e);
                t = getTileAtPosition s (fst imgPos) (snd imgPos);
                newHovered = map_option index t
            in if newHovered \<noteq> hoveredTile s
               then draw (s\<lparr>hoveredTile := newHovered\<rparr>)
               else s))"

text \<open>
  \<open>handleMouseUp\<close> returns the new state and the \<open>tile-click\<close> events it emitted, in order.
\<close>

definition handleMouseUp :: "mouse_event \<Rightarrow> viewer \<Rightarrow> viewer \<times> tile list" where
  "handleMouseUp e s =
     (if isPanning s
      then (s\<lparr>isPanning := False\<rparr>, [])
      else if button e = 0 \<and> \<not> shiftKey e
      then (let imgPos = screenToImage s (clientX e) (clientY e)
            in case getTileAtPosition s (fst imgPos) (snd imgPos) of
                 None \<Rightarrow> (s, [])
               | Some t \<Rightarrow> (s, [t]))
      else (s, []))"

definition handleMouseLeave :: "viewer \<Rightarrow> viewer" where
  "handleMouseLeave s =
     (let s1 = s\<lparr>isPanning := False\<rparr>
      in if hoveredTile s1 \<noteq> None then draw (s1\<lparr>hoveredTile := None\<rparr>) else s1)"

definition zoomIn :: "viewer \<Rightarrow> viewer" where
  "zoomIn s =
     (case containerRef s of
        None \<Rightarrow> s
      | Some cont \<Rightarrow>
          (let centerX = clientWidth cont / 2;
               centerY = clientHeight cont / 2;
               newScale = min MAX_SCALE (scale s * (5 / 4));
               scaleRatio = newScale / scale s
           in draw (s\<lparr>offsetX := centerX - (centerX - offsetX s) * scaleRatio,
                      offsetY := centerY - (centerY - offsetY s) * scaleRatio,
                      scale := newScale\<rparr>)))"

definition zoomOut :: "viewer \<Rightarrow> viewer" where
  "zoomOut s =
     (case containerRef s of
        None \<Rightarrow> s
      | Some cont \<Rightarrow>
          (let centerX = clientWidth cont / 2;
               centerY = clientHeight cont / 2;
               newScale = max MIN_SCALE (scale s * (4 / 5));
               scaleRatio = newScale / scale s
           in draw (s\<lparr>offsetX := centerX - (centerX - offsetX s) * scaleRatio,
                      offsetY := centerY - (centerY - offsetY s) * scaleRatio,
                      scale := newScale\<rparr>)))"

text \<open>
  The component right after setup, with its props and its two template refs bound: the
  refs of the script hold their initial values and nothing is painted yet.
\<close>

definition initialViewer ::
  "int \<Rightarrow> int \<Rightarrow> grid_mode \<Rightarrow> container_el \<Rightarrow> canvas_el \<Rightarrow> viewer" where
  "initialViewer gx gy m cont cv =
     \<lparr>gridX = gx, gridY = gy, gridMode = m, showNumbers = False, selectedTile = None,
      containerRef = Some cont, canvasRef = Some cv, image = None, imageLoaded = False,
      scale = 1, offsetX = 0, offsetY = 0, isPanning = False,
      lastMouseX = 0, lastMouseY = 0, hoveredTile = None,
      devicePixelRatio = 1, frame = []\<rparr>"

text \<open>
  The states the component can be in: the fresh component, and what the callbacks make of
  a state. Images load with at least 1 by 1 pixels; \<open>draw\<close> alone is the resize handler;
  a change of props or of the size of the container is followed by a \<open>draw\<close>.
\<close>

inductive reachable :: "viewer \<Rightarrow> bool" where
  mounted: "reachable (initialViewer gx gy m cont cv)"
| loaded: "reachable s \<Longrightarrow> 1 \<le> naturalWidth img \<Longrightarrow> 1 \<le> naturalHeight img \<Longrightarrow>
     reachable (onload img s)"
| reset: "reachable s \<Longrightarrow> reachable (resetView s)"
| wheel: "reachable s \<Longrightarrow> reachable (handleWheel e s)"
| mouseDown: "reachable s \<Longrightarrow> reachable (handleMouseDown m s)"
| mouseMove: "reachable s \<Longrightarrow> reachable (handleMouseMove m s)"
| mouseUp: "reachable s \<Longrightarrow> reachable (fst (handleMouseUp m s))"
| mouseLeave: "reachable s \<Longrightarrow> reachable (handleMouseLeave s)"
| zoomedIn: "reachable s \<Longrightarrow> reachable (zoomIn s)"
| zoomedOut: "reachable s \<Longrightarrow> reachable (zoomOut s)"
| redrawn: "reachable s \<Longrightarrow> reachable (draw s)"
| propsChanged: "reachable s \<Longrightarrow>
     reachable (draw (s\<lparr>gridX := gx, gridY := gy, gridMode := m, showNumbers := b,
                        selectedTile := sel\<rparr>))"
| resized: "reachable s \<Longrightarrow> reachable (draw (s\<lparr>containerRef := Some cont\<rparr>))"

section \<open>Example scenes\<close>

text \<open>
  A container of 800 by 600 pixels, a canvas whose corner is at client position (8, 48),
  and a 20 by 20 image under a grid of 10 by 10 pixel cells, fitted and centred by
  \<open>resetView\<close> as the \<open>onload\<close> callback does before it draws.
\<close>

definition sceneContainer :: container_el where
  "sceneContainer = \<lparr>clientWidth = 800, clientHeight = 600, rectWidth = 800, rectHeight = 600\<rparr>"

definition sceneCanvas :: canvas_el where
  "sceneCanvas = \<lparr>rectLeft = 8, rectTop = 48\<rparr>"

definition sceneImage :: image_el where
  "sceneImage = \<lparr>naturalWidth = 20, naturalHeight = 20\<rparr>"

definition largeImage :: image_el where
  "largeImage = \<lparr>naturalWidth = 10000, naturalHeight = 10000\<rparr>"

definition emptyImage :: image_el where
  "emptyImage = \<lparr>naturalWidth = 0, naturalHeight = 0\<rparr>"

definition sceneViewer :: viewer where
  "sceneViewer =
     resetView ((initialViewer 10 10 Size sceneContainer sceneCanvas)
                  \<lparr>image := Some sceneImage, imageLoaded := True\<rparr>)"

text \<open>
  An image of 18 by 18 pixels under a grid of 14 by 14 cells: the cell size 18 / 14 is not
  a double.
\<close>

definition countViewer :: viewer where
  "countViewer =
     resetView ((initialViewer 14 14 Count sceneContainer sceneCanvas)
                  \<lparr>image := Some \<lparr>naturalWidth = 18, naturalHeight = 18\<rparr>, imageLoaded := True\<rparr>)"

definition mouseAt :: "real \<Rightarrow> real \<Rightarrow> int \<Rightarrow> bool \<Rightarrow> mouse_event" where
  "mouseAt x y b sh =
     \<lparr>button = b, shiftKey = sh, ctrlKey = False, altKey = False, metaKey = False,
      clientX = x, clientY = y\<rparr>"

definition wheelAt :: "real \<Rightarrow> real \<Rightarrow> real \<Rightarrow> wheel_event" where
  "wheelAt x y d =
     \<lparr>button = 0, shiftKey = False, ctrlKey = False, altKey = False, metaKey = False,
      clientX = x, clientY = y, deltaY = d\<rparr>"

text \<open>
  The application with a first image loaded and tile 1 selected, in the middle of a drag,
  and an image file.
\<close>

definition sceneApp :: app where
  "sceneApp =
     \<lparr>imageUrl = Some ''blob:first'', gridX = 16, gridY = 16, gridMode = Size,
      showNumbers = False, selectedTile = Some \<lparr>index = 1, row = 0, col = 1\<rparr>,
      imageName = ''first'', isDragging = True, dragCounter = 1\<rparr>"

definition scenePng :: file_el where
  "scenePng =
     \<lparr>fileName = ''hero.walk.png'', fileType = ''image/png'', objectURL = ''blob:second''\<rparr>"

section \<open>Basic facts\<close>

declare checkerRow.simps [simp del]
declare checkerboard.simps [simp del]
declare labelCols.simps [simp del]
declare labelRows.simps [simp del]

lemma pow2_pos: "0 < pow2 e"
  by (simp add: pow2_def)

lemma pow2_powr: "pow2 e = 2 powr real_of_int e"
proof (cases "0 \<le> e")
  case True
  then have "2 powr real_of_int e = 2 powr real (nat e)" by simp
  also have "\<dots> = 2 ^ nat e" by (simp add: powr_realpow)
  finally show ?thesis using True by (simp add: pow2_def)
next
  case False
  then have "2 powr real_of_int e = 2 powr (- real (nat (- e)))" by simp
  also have "\<dots> = 1 / 2 ^ nat (- e)"
    by (simp add: powr_minus powr_realpow field_simps)
  finally show ?thesis using False by (simp add: pow2_def)
qed

lemma roundHalfEven_nonneg: "0 \<le> x \<Longrightarrow> 0 \<le> roundHalfEven x"
  by (simp add: roundHalfEven_def Let_def)

lemma roundHalfEven_error: "\<bar>real_of_int (roundHalfEven x) - x\<bar> \<le> 1 / 2"
  unfolding roundHalfEven_def Let_def by (auto simp add: abs_if) linarith+

lemma toDouble_zero: "toDouble 0 = 0"
  by (simp add: toDouble_def)

lemma toDouble_nonneg: "0 \<le> x \<Longrightarrow> 0 \<le> toDouble x"
  using pow2_pos by (simp add: toDouble_def Let_def roundHalfEven_nonneg less_imp_le)

lemma binaryExponent_bounds:
  assumes "0 < a"
  shows "pow2 (binaryExponent a) \<le> a" and "a < pow2 (binaryExponent a + 1)"
proof -
  show "pow2 (binaryExponent a) \<le> a"
  proof (cases "1 \<le> a")
    case True
    then have p: "0 < \<lfloor>a\<rfloor>" by linarith
    then have b: "1 \<le> bitlen \<lfloor>a\<rfloor>"
      using bitlen_eq_zero_iff [of "\<lfloor>a\<rfloor>"] bitlen_nonneg [of "\<lfloor>a\<rfloor>"] by linarith
    have "(2::int) ^ nat (bitlen \<lfloor>a\<rfloor> - 1) \<le> \<lfloor>a\<rfloor>"
      using bitlen_bounds [OF p] by simp
    then have "real_of_int (2 ^ nat (bitlen \<lfloor>a\<rfloor> - 1)) \<le> real_of_int \<lfloor>a\<rfloor>"
      by (simp only: of_int_le_iff)
    then have "2 ^ nat (bitlen \<lfloor>a\<rfloor> - 1) \<le> a"
      by (simp add: le_floor_iff)
    then show ?thesis
      using True b by (simp add: binaryExponent_def pow2_def)
  next
    case False
    then have a1: "1 < 1 / a" using assms by simp
    define n where "n = \<lceil>1 / a\<rceil>"
    have n2: "2 \<le> n" using a1 unfolding n_def by linarith
    then have p: "0 < n - 1" by simp
    have "n - 1 < 2 ^ nat (bitlen (n - 1))"
      using bitlen_bounds [OF p] by simp
    then have "n \<le> 2 ^ nat (bitlen (n - 1))" by simp
    then have "real_of_int n \<le> 2 ^ nat (bitlen (n - 1))"
      by (metis of_int_le_iff of_int_numeral of_int_power)
    moreover have "1 / a \<le> real_of_int n" unfolding n_def by linarith
    ultimately have "1 / a \<le> 2 ^ nat (bitlen (n - 1))" by linarith
    then have "1 \<le> 2 ^ nat (bitlen (n - 1)) * a"
      using assms by (simp add: field_simps)
    then have "1 / 2 ^ nat (bitlen (n - 1)) \<le> a"
      by (simp add: field_simps)
    moreover have "0 < bitlen (n - 1)"
      using p bitlen_eq_zero_iff [of "n - 1"] bitlen_nonneg [of "n - 1"] by linarith
    ultimately show ?thesis
      using False by (simp add: binaryExponent_def pow2_def n_def)
  qed
  show "a < pow2 (binaryExponent a + 1)"
  proof (cases "1 \<le> a")
    case True
    then have p: "0 < \<lfloor>a\<rfloor>" by linarith
    have "\<lfloor>a\<rfloor> < 2 ^ nat (bitlen \<lfloor>a\<rfloor>)"
      using bitlen_bounds [OF p] by simp
    then have "\<lfloor>a\<rfloor> + 1 \<le> 2 ^ nat (bitlen \<lfloor>a\<rfloor>)" by simp
    then have "real_of_int (\<lfloor>a\<rfloor> + 1) \<le> 2 ^ nat (bitlen \<lfloor>a\<rfloor>)"
      by (metis of_int_le_iff of_int_numeral of_int_power)
    moreover have "a < real_of_int (\<lfloor>a\<rfloor> + 1)" by linarith
    ultimately have "a < 2 ^ nat (bitlen \<lfloor>a\<rfloor>)" by linarith
    then show ?thesis
      using True bitlen_nonneg [of "\<lfloor>a\<rfloor>"] by (simp add: binaryExponent_def pow2_def)
  next
    case False
    then have a1: "1 < 1 / a" using assms by simp
    define n where "n = \<lceil>1 / a\<rceil>"
    have n2: "2 \<le> n" using a1 unfolding n_def by linarith
    then have p: "0 < n - 1" by simp
    define k where "k = bitlen (n - 1)"
    have k1: "1 \<le> k"
      using p bitlen_eq_zero_iff [of "n - 1"] bitlen_nonneg [of "n - 1"] unfolding k_def by linarith
    have "(2::int) ^ nat (k - 1) \<le> n - 1"
      using bitlen_bounds [OF p] unfolding k_def by simp
    then have "real_of_int (2 ^ nat (k - 1)) \<le> real_of_int (n - 1)"
      by (simp only: of_int_le_iff)
    moreover have "real_of_int (n - 1) < 1 / a" unfolding n_def by linarith
    ultimately have "2 ^ nat (k - 1) < 1 / a" by simp
    then have "2 ^ nat (k - 1) * a < 1"
      using assms by (simp add: field_simps)
    then have lt: "a < 1 / 2 ^ nat (k - 1)"
      by (simp add: field_simps)
    have e: "binaryExponent a + 1 = - (k - 1)"
      using False by (simp add: binaryExponent_def k_def n_def)
    show ?thesis
    proof (cases "k = 1")
      case True
      then show ?thesis using lt e by (simp add: pow2_def)
    next
      case False
      then have "\<not> 0 \<le> - (k - 1)" using k1 by simp
      then show ?thesis using lt e by (simp add: pow2_def)
    qed
  qed
qed

lemma toDouble_error:
  "\<bar>toDouble x - x\<bar> \<le> \<bar>x\<bar> / 2 ^ 53 + pow2 (- 1075)"
proof (cases "x = 0")
  case True
  then show ?thesis using pow2_pos [of "- 1075"] by (simp add: toDouble_def)
next
  case False
  define e where "e = max (binaryExponent \<bar>x\<bar>) (- 1022)"
  define u where "u = pow2 (e - 52)"
  have u0: "0 < u" unfolding u_def by (rule pow2_pos)
  have fl: "toDouble x = real_of_int (roundHalfEven (x / u)) * u"
    using False by (simp add: toDouble_def Let_def e_def u_def)
  have "toDouble x - x = (real_of_int (roundHalfEven (x / u)) - x / u) * u"
    using u0 by (simp add: fl field_simps)
  then have "\<bar>toDouble x - x\<bar> = \<bar>real_of_int (roundHalfEven (x / u)) - x / u\<bar> * u"
    using u0 by (simp add: abs_mult)
  also have "\<dots> \<le> 1 / 2 * u"
    using roundHalfEven_error [of "x / u"] u0 by (intro mult_right_mono) simp_all
  finally have err: "\<bar>toDouble x - x\<bar> \<le> u / 2" by simp
  have half: "pow2 (k - 52) / 2 = pow2 k / 2 ^ 53" for k
    by (simp add: pow2_powr powr_diff)
  show ?thesis
  proof (cases "- 1022 \<le> binaryExponent \<bar>x\<bar>")
    case True
    then have "e = binaryExponent \<bar>x\<bar>" by (simp add: e_def)
    then have "pow2 e \<le> \<bar>x\<bar>"
      using binaryExponent_bounds(1) [of "\<bar>x\<bar>"] False by simp
    then have "u / 2 \<le> \<bar>x\<bar> / 2 ^ 53"
      unfolding u_def half by (simp add: divide_right_mono)
    then show ?thesis
      using err pow2_pos [of "- 1075"] by linarith
  next
    case False
    then have "e = - 1022" by (simp add: e_def)
    moreover have "(2::real) powr (- 1074) = 2 powr 1 * 2 powr (- 1075)"
      by (simp only: powr_add [symmetric]) simp
    ultimately have "u / 2 = pow2 (- 1075)"
      unfolding u_def by (simp add: pow2_powr)
    then show ?thesis
      using err by (simp add: abs_ge_zero add_increasing)
  qed
qed

lemma numDiv_nonneg:
  assumes "0 \<le> a" and "0 < b"
  shows "0 \<le> numDiv a b"
  unfolding numDiv_def using assms by (intro toDouble_nonneg) simp

lemma toDouble_values:
  shows "toDouble 1 = 1" and "toDouble 2 = 2" and "toDouble 4 = 4" and "toDouble 5 = 5"
    and "toDouble 9 = 9" and "toDouble 10 = 10" and "toDouble 11 = 11" and "toDouble 20 = 20"
    and "toDouble 295 = 295" and "toDouble 400 = 400" and "toDouble 410 = 410"
    and "toDouble (1 / 2) = 1 / 2" and "toDouble (11 / 2) = 11 / 2"
    and "\<lfloor>toDouble (3 / 2)\<rfloor> = 1" and "\<lfloor>toDouble (6 / 5)\<rfloor> = 1"
  by code_simp+

lemma toDouble_nine_sevenths:
  shows "toDouble (9 / 7) = 5790342378047781 / 4503599627370496"
    and "\<lfloor>toDouble (9 / toDouble (9 / 7))\<rfloor> = 6"
    and "\<lfloor>toDouble (4 / toDouble (9 / 7))\<rfloor> = 3"
  by code_simp+

lemma sceneViewer_eq:
  "sceneViewer =
     \<lparr>gridX = 10, gridY = 10, gridMode = Size, showNumbers = False, selectedTile = None,
      containerRef = Some sceneContainer, canvasRef = Some sceneCanvas,
      image = Some sceneImage, imageLoaded = True,
      scale = 1, offsetX = 390, offsetY = 290, isPanning = False,
      lastMouseX = 0, lastMouseY = 0, hoveredTile = None,
      devicePixelRatio = 1, frame = []\<rparr>"
  by (simp add: sceneViewer_def resetView_def initialViewer_def sceneContainer_def
      sceneImage_def Let_def)

lemma scene_geometry:
  shows "cellWidth sceneViewer = 10" and "cellHeight sceneViewer = 10"
    and "colCount sceneViewer = 2" and "rowCount sceneViewer = 2"
    and "imageWidth sceneViewer = 20" and "imageHeight sceneViewer = 20"
  by (simp_all add: sceneViewer_eq sceneImage_def cellWidth_def cellHeight_def colCount_def
      rowCount_def imageWidth_def imageHeight_def)

lemma scene_points:
  shows "screenToImage sceneViewer 408 343 = (10, 5)"
    and "screenToImage sceneViewer 418 343 = (20, 5)"
  by (simp_all add: screenToImage_def sceneViewer_eq sceneCanvas_def numSub_def numDiv_def
      toDouble_values)

lemma scene_hits:
  shows "getTileAtPosition sceneViewer 10 5 = Some \<lparr>index = 1, row = 0, col = 1\<rparr>"
    and "getTileAtPosition sceneViewer 20 5 = None"
    and "getTileAtPosition sceneViewer 15 12 = Some \<lparr>index = 3, row = 1, col = 1\<rparr>"
  by (simp_all add: getTileAtPosition_def scene_geometry Let_def numDiv_def toDouble_values)

lemma countViewer_eq:
  "countViewer =
     \<lparr>gridX = 14, gridY = 14, gridMode = Count, showNumbers = False, selectedTile = None,
      containerRef = Some sceneContainer, canvasRef = Some sceneCanvas,
      image = Some \<lparr>naturalWidth = 18, naturalHeight = 18\<rparr>, imageLoaded = True,
      scale = 1, offsetX = 391, offsetY = 291, isPanning = False,
      lastMouseX = 0, lastMouseY = 0, hoveredTile = None,
      devicePixelRatio = 1, frame = []\<rparr>"
  by (simp add: countViewer_def resetView_def initialViewer_def sceneContainer_def Let_def)

lemma count_geometry:
  shows "cellWidth countViewer = toDouble (9 / 7)" and "cellHeight countViewer = toDouble (9 / 7)"
    and "colCount countViewer = 14" and "rowCount countViewer = 14"
    and "imageWidth countViewer = 18" and "imageHeight countViewer = 18"
  by (simp_all add: countViewer_eq cellWidth_def cellHeight_def colCount_def
      rowCount_def imageWidth_def imageHeight_def numDiv_def)

lemma draw_fields:
  shows "scale (draw s) = scale s" and "offsetX (draw s) = offsetX s"
    and "offsetY (draw s) = offsetY s" and "isPanning (draw s) = isPanning s"
    and "hoveredTile (draw s) = hoveredTile s" and "canvasRef (draw s) = canvasRef s"
    and "containerRef (draw s) = containerRef s" and "image (draw s) = image s"
    and "lastMouseX (draw s) = lastMouseX s" and "lastMouseY (draw s) = lastMouseY s"
    and "selectedTile (draw s) = selectedTile s"
    and "gridX (draw s) = gridX s" and "gridY (draw s) = gridY s"
    and "gridMode (draw s) = gridMode s"
  by (simp_all add: draw_def split: option.split)

section \<open>Grid geometry: properties\<close>

lemma floor_or_1:
  fixes n :: int
  assumes "0 \<le> n"
  shows "(if n = 0 then 1 else n) = max 1 n"
  using assms by (simp add: max_def)

lemma floor_quotient_nonneg:
  fixes w :: real
  assumes "0 \<le> w" and "1 \<le> g"
  shows "0 \<le> \<lfloor>w / real_of_int g\<rfloor>"
  using assms by simp

lemma colCount_size:
  assumes "gridMode s = Size" and "1 \<le> gridX s"
  shows "colCount s = max 1 \<lfloor>imageWidth s / real_of_int (gridX s)\<rfloor>"
proof -
  have "0 \<le> imageWidth s"
    by (simp add: imageWidth_def split: option.split)
  then have "0 \<le> \<lfloor>imageWidth s / real_of_int (gridX s)\<rfloor>"
    using assms(2) by (rule floor_quotient_nonneg)
  then show ?thesis
    unfolding colCount_def Let_def using assms(1) floor_or_1 by presburger
qed

lemma rowCount_size:
  assumes "gridMode s = Size" and "1 \<le> gridY s"
  shows "rowCount s = max 1 \<lfloor>imageHeight s / real_of_int (gridY s)\<rfloor>"
proof -
  have "0 \<le> imageHeight s"
    by (simp add: imageHeight_def split: option.split)
  then have "0 \<le> \<lfloor>imageHeight s / real_of_int (gridY s)\<rfloor>"
    using assms(2) by (rule floor_quotient_nonneg)
  then show ?thesis
    unfolding rowCount_def Let_def using assms(1) floor_or_1 by presburger
qed

text \<open>
  C3. For an image of at least 1 by 1 pixels and grid parameters of at least 1: in
  \<open>size\<close> mode the cell is \<open>gridX\<close> by \<open>gridY\<close> and the counts are
  \<open>max 1 (floor (imageW / gridX))\<close> and \<open>max 1 (floor (imageH / gridY))\<close>; in \<open>count\<close>
  mode the counts are \<open>gridX\<close> and \<open>gridY\<close> and the cell is
  \<open>imageW / colCount\<close> by \<open>imageH / rowCount\<close>, each quotient being the double that the
  division yields, within a relative error of \<open>2 ^ - 53\<close> of the exact quotient.
\<close>

theorem grid_geometry_modes:
  assumes "image s = Some img" and "1 \<le> naturalWidth img" and "1 \<le> naturalHeight img"
    and "1 \<le> gridX s" and "1 \<le> gridY s"
  shows "(gridMode s = Size \<longrightarrow>
           cellWidth s = real_of_int (gridX s) \<and> cellHeight s = real_of_int (gridY s) \<and>
           colCount s = max 1 \<lfloor>real (naturalWidth img) / real_of_int (gridX s)\<rfloor> \<and>
           rowCount s = max 1 \<lfloor>real (naturalHeight img) / real_of_int (gridY s)\<rfloor>) \<and>
         (gridMode s = Count \<longrightarrow>
           colCount s = gridX s \<and> rowCount s = gridY s \<and>
           cellWidth s = numDiv (real (naturalWidth img)) (real_of_int (colCount s)) \<and>
           cellHeight s = numDiv (real (naturalHeight img)) (real_of_int (rowCount s)) \<and>
           \<bar>cellWidth s - real (naturalWidth img) / real_of_int (colCount s)\<bar> \<le>
             real (naturalWidth img) / real_of_int (colCount s) / 2 ^ 53 + pow2 (- 1075) \<and>
           \<bar>cellHeight s - real (naturalHeight img) / real_of_int (rowCount s)\<bar> \<le>
             real (naturalHeight img) / real_of_int (rowCount s) / 2 ^ 53 + pow2 (- 1075))"
proof -
  have iw: "imageWidth s = real (naturalWidth img)"
    and ih: "imageHeight s = real (naturalHeight img)"
    using assms(1) by (simp_all add: imageWidth_def imageHeight_def)
  have "colCount s = max 1 \<lfloor>real (naturalWidth img) / real_of_int (gridX s)\<rfloor>"
    if "gridMode s = Size"
    using colCount_size [OF that assms(4)] by (simp only: iw)
  moreover have "rowCount s = max 1 \<lfloor>real (naturalHeight img) / real_of_int (gridY s)\<rfloor>"
    if "gridMode s = Size"
    using rowCount_size [OF that assms(5)] by (simp only: ih)
  moreover have "cellWidth s = real_of_int (gridX s) \<and> cellHeight s = real_of_int (gridY s)"
    if "gridMode s = Size"
    using that by (simp add: cellWidth_def cellHeight_def)
  moreover have count: "colCount s = gridX s \<and> rowCount s = gridY s \<and>
      cellWidth s = numDiv (real (naturalWidth img)) (real_of_int (colCount s)) \<and>
      cellHeight s = numDiv (real (naturalHeight img)) (real_of_int (rowCount s))"
    if "gridMode s = Count"
    using that by (simp add: cellWidth_def cellHeight_def colCount_def rowCount_def iw ih)
  moreover have "\<bar>cellWidth s - real (naturalWidth img) / real_of_int (colCount s)\<bar> \<le>
      real (naturalWidth img) / real_of_int (colCount s) / 2 ^ 53 + pow2 (- 1075)"
    if "gridMode s = Count"
  proof -
    have "0 \<le> real (naturalWidth img) / real_of_int (colCount s)"
      using count [OF that] assms(4) by simp
    then show ?thesis
      using toDouble_error [of "real (naturalWidth img) / real_of_int (colCount s)"]
        count [OF that]
      by (simp add: numDiv_def)
  qed
  moreover have "\<bar>cellHeight s - real (naturalHeight img) / real_of_int (rowCount s)\<bar> \<le>
      real (naturalHeight img) / real_of_int (rowCount s) / 2 ^ 53 + pow2 (- 1075)"
    if "gridMode s = Count"
  proof -
    have "0 \<le> real (naturalHeight img) / real_of_int (rowCount s)"
      using count [OF that] assms(5) by simp
    then show ?thesis
      using toDouble_error [of "real (naturalHeight img) / real_of_int (rowCount s)"]
        count [OF that]
      by (simp add: numDiv_def)
  qed
  ultimately show ?thesis by blast
qed

theorem grid_geometry_modes_witness:
  "colCount sceneViewer = 2 \<and> rowCount sceneViewer = 2 \<and>
   cellWidth sceneViewer = 10 \<and> cellHeight sceneViewer = 10 \<and>
   colCount (sceneViewer\<lparr>gridMode := Count, gridX := 4, gridY := 5\<rparr>) = 4 \<and>
   rowCount (sceneViewer\<lparr>gridMode := Count, gridX := 4, gridY := 5\<rparr>) = 5 \<and>
   cellWidth (sceneViewer\<lparr>gridMode := Count, gridX := 4, gridY := 5\<rparr>) = 5 \<and>
   cellHeight (sceneViewer\<lparr>gridMode := Count, gridX := 4, gridY := 5\<rparr>) = 4"
  using grid_geometry_modes [of sceneViewer sceneImage]
    grid_geometry_modes [of "sceneViewer\<lparr>gridMode := Count, gridX := 4, gridY := 5\<rparr>" sceneImage]
  by (simp add: sceneViewer_eq sceneImage_def numDiv_def toDouble_values)

section \<open>Hit test\<close>

lemma row_major_bounds:
  fixes r c n m :: int
  assumes "0 \<le> r" and "r < m" and "0 \<le> c" and "c < n"
  shows "0 \<le> r * n + c" and "r * n + c < n * m"
proof -
  have n: "0 < n" using assms(3,4) by linarith
  show "0 \<le> r * n + c"
    using assms(1,3) n by simp
  have "r + 1 \<le> m" using assms(2) by simp
  then have "(r + 1) * n \<le> m * n"
    using n by (intro mult_right_mono) simp_all
  then show "r * n + c < n * m"
    using assms(4) by (simp add: algebra_simps)
qed

lemma getTileAtPosition_Some:
  assumes "getTileAtPosition s x y = Some t"
  shows "0 \<le> x" and "0 \<le> y" and "x < imageWidth s" and "y < imageHeight s"
    and "col t = \<lfloor>numDiv x (cellWidth s)\<rfloor>" and "row t = \<lfloor>numDiv y (cellHeight s)\<rfloor>"
    and "col t < colCount s" and "row t < rowCount s"
    and "index t = row t * colCount s + col t"
  using assms by (auto simp add: getTileAtPosition_def Let_def split: if_splits)

lemma hit_in_grid:
  assumes "0 < cellWidth s" and "0 < cellHeight s" and "getTileAtPosition s x y = Some t"
  shows "0 \<le> row t" and "row t < rowCount s" and "0 \<le> col t" and "col t < colCount s"
    and "index t = row t * colCount s + col t"
proof -
  note h = getTileAtPosition_Some [OF assms(3)]
  show "0 \<le> row t"
    using h(6) numDiv_nonneg [OF h(2) assms(2)] by simp
  show "0 \<le> col t"
    using h(5) numDiv_nonneg [OF h(1) assms(1)] by simp
  show "row t < rowCount s" and "col t < colCount s"
    and "index t = row t * colCount s + col t"
    using h(7,8,9) by simp_all
qed

text \<open>
  C1. The hit test of a screen point, as \<open>handleMouseUp\<close> and \<open>handleMouseMove\<close> compose it
  from \<open>screenToImage\<close> and \<open>getTileAtPosition\<close>. Screen coordinates count from the corner
  of the canvas: the image-space point is
  \<open>x = (screenX - rect.left - offsetX) / scale\<close>, \<open>y = (screenY - rect.top - offsetY) / scale\<close>,
  every operation being the operation of doubles. For a positive scale and positive cell
  sizes the result is \<open>null\<close> when the point is outside \<open>[0, imageW) \<times> [0, imageH)\<close> or
  \<open>floor (x / cellWidth) \<ge> colCount\<close> or \<open>floor (y / cellHeight) \<ge> rowCount\<close>, and otherwise
  exactly the tile with \<open>col = floor (x / cellWidth)\<close>, \<open>row = floor (y / cellHeight)\<close> and
  \<open>index = row * colCount + col\<close>, the quotients again being those of doubles. A hit is a
  cell of the grid, and one point has one result: with \<open>cellWidth = 10\<close> a hit at
  image-space \<open>x = 10\<close> has column 1.
\<close>

theorem hit_test_locates_cell:
  assumes "canvasRef s = Some rect" and "0 < scale s"
    and "0 < cellWidth s" and "0 < cellHeight s"
    and "1 \<le> colCount s" and "1 \<le> rowCount s"
  shows "let x = numDiv (numSub (numSub screenX (rectLeft rect)) (offsetX s)) (scale s);
             y = numDiv (numSub (numSub screenY (rectTop rect)) (offsetY s)) (scale s);
             c = \<lfloor>numDiv x (cellWidth s)\<rfloor>;
             r = \<lfloor>numDiv y (cellHeight s)\<rfloor>;
             hit = getTileAtPosition s (fst (screenToImage s screenX screenY))
                     (snd (screenToImage s screenX screenY))
         in screenToImage s screenX screenY = (x, y) \<and>
            hit = (if x < 0 \<or> y < 0 \<or> imageWidth s \<le> x \<or> imageHeight s \<le> y \<or>
                      colCount s \<le> c \<or> rowCount s \<le> r
                   then None
                   else Some \<lparr>index = r * colCount s + c, row = r, col = c\<rparr>) \<and>
            (hit \<noteq> None \<longrightarrow>
               0 \<le> c \<and> c < colCount s \<and> 0 \<le> r \<and> r < rowCount s \<and>
               0 \<le> r * colCount s + c \<and> r * colCount s + c < totalCells s) \<and>
            (cellWidth s = 10 \<longrightarrow>
               (\<forall>imgY t. getTileAtPosition s 10 imgY = Some t \<longrightarrow> col t = 1))"
proof -
  define x where "x = numDiv (numSub (numSub screenX (rectLeft rect)) (offsetX s)) (scale s)"
  define y where "y = numDiv (numSub (numSub screenY (rectTop rect)) (offsetY s)) (scale s)"
  define c where "c = \<lfloor>numDiv x (cellWidth s)\<rfloor>"
  define r where "r = \<lfloor>numDiv y (cellHeight s)\<rfloor>"
  define hit where "hit = getTileAtPosition s x y"
  have p: "screenToImage s screenX screenY = (x, y)"
    using assms(1) by (simp add: screenToImage_def x_def y_def)
  have h: "hit = (if x < 0 \<or> y < 0 \<or> imageWidth s \<le> x \<or> imageHeight s \<le> y \<or>
                      colCount s \<le> c \<or> rowCount s \<le> r
                   then None
                   else Some \<lparr>index = r * colCount s + c, row = r, col = c\<rparr>)"
    by (simp add: hit_def getTileAtPosition_def Let_def c_def r_def)
  have inside: "0 \<le> c \<and> c < colCount s \<and> 0 \<le> r \<and> r < rowCount s \<and>
               0 \<le> r * colCount s + c \<and> r * colCount s + c < totalCells s"
    if "hit \<noteq> None"
  proof -
    from that obtain t where t: "getTileAtPosition s x y = Some t"
      by (auto simp add: hit_def)
    note g = hit_in_grid [OF assms(3,4) t]
    have "col t = c" and "row t = r"
      using getTileAtPosition_Some(5,6) [OF t] by (simp_all add: c_def r_def)
    then have b: "0 \<le> r" "r < rowCount s" "0 \<le> c" "c < colCount s"
      using g(1-4) by simp_all
    show ?thesis
      using b row_major_bounds [OF b] by (simp add: totalCells_def)
  qed
  have boundary: "\<forall>imgY t. getTileAtPosition s 10 imgY = Some t \<longrightarrow> col t = 1"
    if "cellWidth s = 10"
    using that by (auto dest: getTileAtPosition_Some(5) simp add: numDiv_def toDouble_values)
  show ?thesis
    unfolding Let_def p fst_conv snd_conv
    using h inside boundary
    unfolding hit_def x_def y_def c_def r_def by blast
qed

theorem hit_test_locates_cell_witness:
  "screenToImage sceneViewer 408 343 = (10, 5) \<and>
   getTileAtPosition sceneViewer 10 5 = Some \<lparr>index = 1, row = 0, col = 1\<rparr> \<and>
   screenToImage sceneViewer 418 343 = (20, 5) \<and>
   getTileAtPosition sceneViewer 20 5 = None \<and>
   screenToImage countViewer 408 343 = (9, 4) \<and>
   getTileAtPosition countViewer 9 4 = Some \<lparr>index = 48, row = 3, col = 6\<rparr> \<and>
   \<lfloor>9 / (18 / 14 :: real)\<rfloor> = 7"
proof -
  have v1: "canvasRef sceneViewer = Some sceneCanvas" "0 < scale sceneViewer"
    by (simp_all add: sceneViewer_eq)
  have v2: "0 < cellWidth sceneViewer" "0 < cellHeight sceneViewer"
    "1 \<le> colCount sceneViewer" "1 \<le> rowCount sceneViewer"
    by (simp_all add: scene_geometry)
  note v = v1 v2
  have k1: "canvasRef countViewer = Some sceneCanvas" "0 < scale countViewer"
    by (simp_all add: countViewer_eq)
  have k2: "0 < cellWidth countViewer" "0 < cellHeight countViewer"
    "1 \<le> colCount countViewer" "1 \<le> rowCount countViewer"
    by (simp_all add: count_geometry toDouble_nine_sevenths)
  note k = k1 k2
  have q: "screenToImage countViewer 408 343 = (9, 4)"
    by (simp add: screenToImage_def countViewer_eq sceneCanvas_def numSub_def numDiv_def
        toDouble_values)
  have f: "\<lfloor>numDiv 9 (toDouble (9 / 7))\<rfloor> = 6" "\<lfloor>numDiv 4 (toDouble (9 / 7))\<rfloor> = 3"
    by (simp_all only: numDiv_def toDouble_nine_sevenths(2,3))
  have h: "getTileAtPosition countViewer 9 4 = Some \<lparr>index = 48, row = 3, col = 6\<rparr>"
    by (simp add: getTileAtPosition_def count_geometry Let_def f)
  show ?thesis
    using hit_test_locates_cell [OF v, of 408 343] hit_test_locates_cell [OF v, of 418 343]
      hit_test_locates_cell [OF k, of 408 343]
    by (simp add: scene_points scene_hits q h)
qed

section \<open>Zoom\<close>

lemma scale_bounds_ordered: "MIN_SCALE \<le> MAX_SCALE"
  by (simp add: MIN_SCALE_def MAX_SCALE_def)

lemma clamp_between:
  shows "MIN_SCALE \<le> max MIN_SCALE (min MAX_SCALE x)"
    and "max MIN_SCALE (min MAX_SCALE x) \<le> MAX_SCALE"
  by (simp_all add: MIN_SCALE_def MAX_SCALE_def)

lemma anchor_algebra:
  fixes p off sc ns :: real
  assumes "sc \<noteq> 0"
  shows "(p - (p - off) * (ns / sc)) + (p - off) / sc * ns = p"
  using assms by (simp add: field_simps)

lemma clamp_at_upper:
  "max MIN_SCALE (min MAX_SCALE (MAX_SCALE * (11 / 10))) = MAX_SCALE"
  by (simp add: MIN_SCALE_def MAX_SCALE_def)

lemma clamp_at_lower:
  "max MIN_SCALE (min MAX_SCALE (MIN_SCALE * (9 / 10))) = MIN_SCALE"
  by (simp add: MIN_SCALE_def MAX_SCALE_def)

lemma handleWheel_fields:
  assumes "canvasRef s = Some rect"
  shows "scale (handleWheel e s) =
           max MIN_SCALE (min MAX_SCALE (scale s * (if deltaY e > 0 then 9 / 10 else 11 / 10)))"
    and "offsetX (handleWheel e s) =
           (clientX e - rectLeft rect) - ((clientX e - rectLeft rect) - offsetX s) *
             (max MIN_SCALE (min MAX_SCALE (scale s * (if deltaY e > 0 then 9 / 10 else 11 / 10)))
               / scale s)"
    and "offsetY (handleWheel e s) =
           (clientY e - rectTop rect) - ((clientY e - rectTop rect) - offsetY s) *
             (max MIN_SCALE (min MAX_SCALE (scale s * (if deltaY e > 0 then 9 / 10 else 11 / 10)))
               / scale s)"
  using assms by (simp_all add: handleWheel_def Let_def draw_fields)

lemma zoomIn_fields:
  assumes "containerRef s = Some cont"
  shows "scale (zoomIn s) = min MAX_SCALE (scale s * (5 / 4))"
    and "offsetX (zoomIn s) =
           clientWidth cont / 2 - (clientWidth cont / 2 - offsetX s) *
             (min MAX_SCALE (scale s * (5 / 4)) / scale s)"
    and "offsetY (zoomIn s) =
           clientHeight cont / 2 - (clientHeight cont / 2 - offsetY s) *
             (min MAX_SCALE (scale s * (5 / 4)) / scale s)"
  using assms by (simp_all add: zoomIn_def Let_def draw_fields)

lemma zoomOut_fields:
  assumes "containerRef s = Some cont"
  shows "scale (zoomOut s) = max MIN_SCALE (scale s * (4 / 5))"
    and "offsetX (zoomOut s) =
           clientWidth cont / 2 - (clientWidth cont / 2 - offsetX s) *
             (max MIN_SCALE (scale s * (4 / 5)) / scale s)"
    and "offsetY (zoomOut s) =
           clientHeight cont / 2 - (clientHeight cont / 2 - offsetY s) *
             (max MIN_SCALE (scale s * (4 / 5)) / scale s)"
  using assms by (simp_all add: zoomOut_def Let_def draw_fields)

lemma button_zoom_anchor:
  assumes "containerRef s = Some cont" and "MIN_SCALE \<le> scale s" and "scale s \<le> MAX_SCALE"
  shows "scale (zoomIn s) = max MIN_SCALE (min MAX_SCALE (scale s * (5 / 4)))"
    and "offsetX (zoomIn s) + (clientWidth cont / 2 - offsetX s) / scale s * scale (zoomIn s) =
           clientWidth cont / 2"
    and "offsetY (zoomIn s) + (clientHeight cont / 2 - offsetY s) / scale s * scale (zoomIn s) =
           clientHeight cont / 2"
    and "scale (zoomOut s) = max MIN_SCALE (min MAX_SCALE (scale s * (4 / 5)))"
    and "offsetX (zoomOut s) + (clientWidth cont / 2 - offsetX s) / scale s * scale (zoomOut s) =
           clientWidth cont / 2"
    and "offsetY (zoomOut s) + (clientHeight cont / 2 - offsetY s) / scale s * scale (zoomOut s) =
           clientHeight cont / 2"
proof -
  have pos: "scale s \<noteq> 0"
    using assms(2) by (simp add: MIN_SCALE_def)
  have "MIN_SCALE \<le> scale s * (5 / 4)"
    using assms(2) by (simp add: MIN_SCALE_def)
  then show "scale (zoomIn s) = max MIN_SCALE (min MAX_SCALE (scale s * (5 / 4)))"
    using scale_bounds_ordered by (simp add: zoomIn_fields(1) [OF assms(1)])
  have "scale s * (4 / 5) \<le> MAX_SCALE"
    using assms(2,3) by (simp add: MIN_SCALE_def MAX_SCALE_def)
  then show "scale (zoomOut s) = max MIN_SCALE (min MAX_SCALE (scale s * (4 / 5)))"
    by (simp add: zoomOut_fields(1) [OF assms(1)])
  show "offsetX (zoomIn s) + (clientWidth cont / 2 - offsetX s) / scale s * scale (zoomIn s) =
           clientWidth cont / 2"
    unfolding zoomIn_fields [OF assms(1)] using pos by (rule anchor_algebra)
  show "offsetY (zoomIn s) + (clientHeight cont / 2 - offsetY s) / scale s * scale (zoomIn s) =
           clientHeight cont / 2"
    unfolding zoomIn_fields [OF assms(1)] using pos by (rule anchor_algebra)
  show "offsetX (zoomOut s) + (clientWidth cont / 2 - offsetX s) / scale s * scale (zoomOut s) =
           clientWidth cont / 2"
    unfolding zoomOut_fields [OF assms(1)] using pos by (rule anchor_algebra)
  show "offsetY (zoomOut s) + (clientHeight cont / 2 - offsetY s) / scale s * scale (zoomOut s) =
           clientHeight cont / 2"
    unfolding zoomOut_fields [OF assms(1)] using pos by (rule anchor_algebra)
qed

text \<open>
  C2. Wheel zoom from a scale within \<open>[MIN_SCALE, MAX_SCALE]\<close>, with the pointer at
  \<open>(px, py)\<close> measured from the corner of the canvas and the factor \<open>f\<close> that the wheel
  direction selects: the new scale is \<open>clamp (scale * f)\<close>, each offset becomes
  \<open>p - (p - offset) * (newScale / scale)\<close>, the image-space point that was under the
  pointer, \<open>(p - offset) / scale\<close>, is drawn at the pointer again, and at a bound, when the factor would pass it, the ratio
  applied is 1 and scale and offsets do not change. The zoom buttons do the same about
  the centre of the container, with the factors 1.25 and 0.8.
\<close>

theorem wheel_zoom_anchor:
  assumes "canvasRef s = Some rect" and "MIN_SCALE \<le> scale s" and "scale s \<le> MAX_SCALE"
  shows "let px = clientX e - rectLeft rect;
             py = clientY e - rectTop rect;
             f = (if deltaY e > 0 then 9 / 10 else 11 / 10);
             newScale = max MIN_SCALE (min MAX_SCALE (scale s * f));
             s' = handleWheel e s;
             under = ((px - offsetX s) / scale s, (py - offsetY s) / scale s)
         in scale s' = newScale \<and>
            offsetX s' = px - (px - offsetX s) * (newScale / scale s) \<and>
            offsetY s' = py - (py - offsetY s) * (newScale / scale s) \<and>
            offsetX s' + fst under * scale s' = px \<and>
            offsetY s' + snd under * scale s' = py \<and>
            ((scale s = MAX_SCALE \<and> \<not> deltaY e > 0) \<or> (scale s = MIN_SCALE \<and> deltaY e > 0)
               \<longrightarrow> newScale / scale s = 1 \<and> scale s' = scale s \<and>
                   offsetX s' = offsetX s \<and> offsetY s' = offsetY s) \<and>
            (\<forall>cont. containerRef s = Some cont \<longrightarrow>
               scale (zoomIn s) = max MIN_SCALE (min MAX_SCALE (scale s * (5 / 4))) \<and>
               offsetX (zoomIn s) +
                 (clientWidth cont / 2 - offsetX s) / scale s * scale (zoomIn s) =
                 clientWidth cont / 2 \<and>
               offsetY (zoomIn s) +
                 (clientHeight cont / 2 - offsetY s) / scale s * scale (zoomIn s) =
                 clientHeight cont / 2 \<and>
               scale (zoomOut s) = max MIN_SCALE (min MAX_SCALE (scale s * (4 / 5))) \<and>
               offsetX (zoomOut s) +
                 (clientWidth cont / 2 - offsetX s) / scale s * scale (zoomOut s) =
                 clientWidth cont / 2 \<and>
               offsetY (zoomOut s) +
                 (clientHeight cont / 2 - offsetY s) / scale s * scale (zoomOut s) =
                 clientHeight cont / 2)"
proof -
  define px where "px = clientX e - rectLeft rect"
  define py where "py = clientY e - rectTop rect"
  define f :: real where "f = (if deltaY e > 0 then 9 / 10 else 11 / 10)"
  define newScale where "newScale = max MIN_SCALE (min MAX_SCALE (scale s * f))"
  have pos: "scale s \<noteq> 0"
    using assms(2) by (simp add: MIN_SCALE_def)
  have sc: "scale (handleWheel e s) = newScale"
    and ox: "offsetX (handleWheel e s) = px - (px - offsetX s) * (newScale / scale s)"
    and oy: "offsetY (handleWheel e s) = py - (py - offsetY s) * (newScale / scale s)"
    using handleWheel_fields [OF assms(1), of e]
    by (simp_all only: px_def py_def f_def newScale_def)
  have ax: "offsetX (handleWheel e s) + (px - offsetX s) / scale s * scale (handleWheel e s) = px"
    unfolding sc ox using pos by (rule anchor_algebra)
  have ay: "offsetY (handleWheel e s) + (py - offsetY s) / scale s * scale (handleWheel e s) = py"
    unfolding sc oy using pos by (rule anchor_algebra)
  have bound: "newScale = scale s"
    if "(scale s = MAX_SCALE \<and> \<not> deltaY e > 0) \<or> (scale s = MIN_SCALE \<and> deltaY e > 0)"
    using that clamp_at_upper clamp_at_lower by (auto simp add: newScale_def f_def)
  have noop: "newScale / scale s = 1 \<and> scale (handleWheel e s) = scale s \<and>
      offsetX (handleWheel e s) = offsetX s \<and> offsetY (handleWheel e s) = offsetY s"
    if "(scale s = MAX_SCALE \<and> \<not> deltaY e > 0) \<or> (scale s = MIN_SCALE \<and> deltaY e > 0)"
    using bound [OF that] pos by (simp add: sc ox oy)
  have buttons: "\<forall>cont. containerRef s = Some cont \<longrightarrow>
               scale (zoomIn s) = max MIN_SCALE (min MAX_SCALE (scale s * (5 / 4))) \<and>
               offsetX (zoomIn s) +
                 (clientWidth cont / 2 - offsetX s) / scale s * scale (zoomIn s) =
                 clientWidth cont / 2 \<and>
               offsetY (zoomIn s) +
                 (clientHeight cont / 2 - offsetY s) / scale s * scale (zoomIn s) =
                 clientHeight cont / 2 \<and>
               scale (zoomOut s) = max MIN_SCALE (min MAX_SCALE (scale s * (4 / 5))) \<and>
               offsetX (zoomOut s) +
                 (clientWidth cont / 2 - offsetX s) / scale s * scale (zoomOut s) =
                 clientWidth cont / 2 \<and>
               offsetY (zoomOut s) +
                 (clientHeight cont / 2 - offsetY s) / scale s * scale (zoomOut s) =
                 clientHeight cont / 2"
    using button_zoom_anchor [OF _ assms(2,3)] by blast
  show ?thesis
    unfolding Let_def fst_conv snd_conv
    using sc ox oy ax ay noop buttons
    unfolding px_def py_def f_def newScale_def by blast
qed

theorem wheel_zoom_anchor_witness:
  "scale (handleWheel (wheelAt 408 343 (-1)) sceneViewer) = 11 / 10 \<and>
   offsetX (handleWheel (wheelAt 408 343 (-1)) sceneViewer) = 389 \<and>
   offsetY (handleWheel (wheelAt 408 343 (-1)) sceneViewer) = 579 / 2 \<and>
   screenToImage sceneViewer 408 343 = (10, 5) \<and>
   screenToImage (handleWheel (wheelAt 408 343 (-1)) sceneViewer) 408 343 = (10, 5) \<and>
   scale (handleWheel (wheelAt 408 343 (-1)) (sceneViewer\<lparr>scale := 10\<rparr>)) = 10 \<and>
   offsetX (handleWheel (wheelAt 408 343 (-1)) (sceneViewer\<lparr>scale := 10\<rparr>)) = 390 \<and>
   scale (zoomIn sceneViewer) = 5 / 4 \<and>
   offsetX (zoomIn sceneViewer) + 10 * scale (zoomIn sceneViewer) = 400"
proof -
  let ?e = "wheelAt 408 343 (-1)"
  have v: "canvasRef sceneViewer = Some sceneCanvas" "scale sceneViewer = 1"
    "offsetX sceneViewer = 390" "offsetY sceneViewer = 290"
    by (simp_all add: sceneViewer_eq)
  have r: "rectLeft sceneCanvas = 8" "rectTop sceneCanvas = 48"
    by (simp_all add: sceneCanvas_def)
  have e: "clientX ?e = 408" "clientY ?e = 343" "deltaY ?e = -1"
    by (simp_all add: wheelAt_def)
  have w: "canvasRef (handleWheel ?e sceneViewer) = Some sceneCanvas"
    by (simp add: handleWheel_def v Let_def draw_fields)
  have f: "scale (handleWheel ?e sceneViewer) = 11 / 10"
    "offsetX (handleWheel ?e sceneViewer) = 389"
    "offsetY (handleWheel ?e sceneViewer) = 579 / 2"
    by (simp_all add: handleWheel_fields [OF v(1)] v r e MIN_SCALE_def MAX_SCALE_def)
  have k: "containerRef sceneViewer = Some sceneContainer"
    by (simp add: sceneViewer_eq)
  have z: "scale (zoomIn sceneViewer) = 5 / 4" "offsetX (zoomIn sceneViewer) = 775 / 2"
    by (simp_all add: zoomIn_fields [OF k] v sceneContainer_def MAX_SCALE_def)
  have p: "screenToImage sceneViewer 408 343 = (10, 5)"
    "screenToImage (handleWheel ?e sceneViewer) 408 343 = (10, 5)"
    by (simp_all add: screenToImage_def v r w f numSub_def numDiv_def toDouble_values)
  show ?thesis
    using wheel_zoom_anchor [of sceneViewer sceneCanvas ?e]
      wheel_zoom_anchor [of "sceneViewer\<lparr>scale := 10\<rparr>" sceneCanvas ?e]
    by (simp add: v r e f p z Let_def MIN_SCALE_def MAX_SCALE_def)
qed

section \<open>Tile indices\<close>

lemma smod_nonneg_pos:
  fixes k l :: int
  assumes "0 \<le> k" and "0 < l"
  shows "k smod l = k mod l"
proof -
  have "k smod l = sgn k * (\<bar>k\<bar> mod \<bar>l\<bar>)"
    by (rule smod_int_alt_def)
  also have "\<dots> = sgn k * (k mod l)"
    using assms by simp
  also have "\<dots> = k mod l"
  proof (cases "k = 0")
    case True
    then show ?thesis by simp
  next
    case False
    with assms(1) have "sgn k = 1" by simp
    then show ?thesis by simp
  qed
  finally show ?thesis .
qed

lemma row_major_recover:
  fixes r c n :: int
  assumes "0 \<le> c" and "c < n"
  shows "(r * n + c) mod n = c" and "(r * n + c) div n = r"
  using assms by simp_all

lemma hover_recover:
  assumes "0 \<le> r" and "0 \<le> c" and "c < colCount s"
  shows "(r * colCount s + c) smod colCount s = c"
    and "\<lfloor>real_of_int (r * colCount s + c) / real_of_int (colCount s)\<rfloor> = r"
proof -
  have n: "0 < colCount s" using assms(2,3) by linarith
  have "0 \<le> r * colCount s + c"
    using assms(1,2) n by simp
  then have "(r * colCount s + c) smod colCount s = (r * colCount s + c) mod colCount s"
    using n by (rule smod_nonneg_pos)
  then show "(r * colCount s + c) smod colCount s = c"
    using row_major_recover(1) [OF assms(2,3)] by simp
  have "\<lfloor>real_of_int (r * colCount s + c) / real_of_int (colCount s)\<rfloor> =
          (r * colCount s + c) div colCount s"
    by (rule floor_divide_of_int_eq)
  then show "\<lfloor>real_of_int (r * colCount s + c) / real_of_int (colCount s)\<rfloor> = r"
    using row_major_recover(2) [OF assms(2,3)] by simp
qed

lemma hoverHighlight_of_index:
  assumes "0 \<le> r" and "0 \<le> c" and "c < colCount s"
  shows "hoverHighlight (s\<lparr>hoveredTile := Some (r * colCount s + c)\<rparr>) =
           [FillRect ''rgba(233, 69, 96, 0.2)''
              (real_of_int c * cellWidth s) (real_of_int r * cellHeight s)
              (cellWidth s) (cellHeight s)]"
proof -
  let ?s = "s\<lparr>hoveredTile := Some (r * colCount s + c)\<rparr>"
  have g: "colCount ?s = colCount s" "cellWidth ?s = cellWidth s" "cellHeight ?s = cellHeight s"
    by (simp_all add: colCount_def cellWidth_def cellHeight_def imageWidth_def imageHeight_def)
  show ?thesis
    unfolding hoverHighlight_def Let_def g
    using hover_recover [OF assms] by simp
qed

lemma labelCols_closed:
  "labelCols s r c i =
     (concat (map (\<lambda>k. cellLabel s r k (i + (k - c))) [c..colCount s - 1]),
      i + max 0 (colCount s - c))"
proof (induction s r c i rule: labelCols.induct)
  case (1 s r c i)
  show ?case
  proof (cases "c < colCount s")
    case True
    then have u: "[c..colCount s - 1] = c # [c + 1..colCount s - 1]"
      by (simp add: upto_rec1)
    have m: "(\<lambda>k. cellLabel s r k (i + 1 + (k - (c + 1)))) = (\<lambda>k. cellLabel s r k (i + (k - c)))"
      by (rule ext) (simp add: algebra_simps)
    show ?thesis
      using True "1.IH" [OF True]
      by (subst labelCols.simps) (simp add: u m Let_def max_def)
  next
    case False
    then show ?thesis
      by (subst labelCols.simps) simp
  qed
qed

lemma labelRows_closed:
  "labelRows s r i =
     concat (map (\<lambda>r'. concat (map (\<lambda>k. cellLabel s r' k (i + (r' - r) * colCount s + k))
                                  [0..colCount s - 1]))
               [r..rowCount s - 1])"
proof (induction s r i rule: labelRows.induct)
  case (1 s r i)
  show ?case
  proof (cases "r < rowCount s")
    case True
    then have u: "[r..rowCount s - 1] = r # [r + 1..rowCount s - 1]"
      by (simp add: upto_rec1)
    show ?thesis
      using True "1.IH" [OF True refl]
      by (subst labelRows.simps) (simp add: u Let_def labelCols_closed max_def algebra_simps)
  next
    case False
    then show ?thesis
      by (subst labelRows.simps) simp
  qed
qed

text \<open>
  C4. For a grid with at least one column and one row: every cell \<open>(r, c)\<close> with
  \<open>0 \<le> r < rowCount\<close> and \<open>0 \<le> c < colCount\<close> has the index \<open>r * colCount + c\<close> in
  \<open>[0, colCount * rowCount)\<close>; the way \<open>draw\<close> recovers the hovered cell from its index,
  \<open>(floor (index / colCount), index % colCount)\<close>, gives back \<open>(r, c)\<close>, so the hover
  rectangle is the rectangle of that cell; two cells with the same index are the same cell;
  every tile that the hit test returns is such a cell with that index; and the label loop
  of \<open>draw\<close> numbers the cells row by row with exactly these indices.
\<close>

theorem tile_index_row_major:
  assumes "1 \<le> colCount s" and "1 \<le> rowCount s"
  shows "(\<forall>r c. 0 \<le> r \<and> r < rowCount s \<and> 0 \<le> c \<and> c < colCount s \<longrightarrow>
            0 \<le> r * colCount s + c \<and> r * colCount s + c < totalCells s \<and>
            (r * colCount s + c) smod colCount s = c \<and>
            \<lfloor>real_of_int (r * colCount s + c) / real_of_int (colCount s)\<rfloor> = r \<and>
            hoverHighlight (s\<lparr>hoveredTile := Some (r * colCount s + c)\<rparr>) =
              [FillRect ''rgba(233, 69, 96, 0.2)''
                 (real_of_int c * cellWidth s) (real_of_int r * cellHeight s)
                 (cellWidth s) (cellHeight s)]) \<and>
         (\<forall>r c r' c'. 0 \<le> r \<and> r < rowCount s \<and> 0 \<le> c \<and> c < colCount s \<and>
            0 \<le> r' \<and> r' < rowCount s \<and> 0 \<le> c' \<and> c' < colCount s \<and>
            r * colCount s + c = r' * colCount s + c' \<longrightarrow> r = r' \<and> c = c') \<and>
         (\<forall>x y t. 0 < cellWidth s \<and> 0 < cellHeight s \<and> getTileAtPosition s x y = Some t \<longrightarrow>
            index t = row t * colCount s + col t \<and>
            0 \<le> row t \<and> row t < rowCount s \<and> 0 \<le> col t \<and> col t < colCount s \<and>
            0 \<le> index t \<and> index t < totalCells s \<and>
            index t smod colCount s = col t \<and>
            \<lfloor>real_of_int (index t) / real_of_int (colCount s)\<rfloor> = row t) \<and>
         labelRows s 0 0 =
           concat (map (\<lambda>r. concat (map (\<lambda>c. cellLabel s r c (r * colCount s + c))
                                       [0..colCount s - 1]))
                     [0..rowCount s - 1])"
proof (intro conjI allI impI)
  fix r c
  assume a: "0 \<le> r \<and> r < rowCount s \<and> 0 \<le> c \<and> c < colCount s"
  then show "0 \<le> r * colCount s + c" and "r * colCount s + c < totalCells s"
    using row_major_bounds [of r "rowCount s" c "colCount s"] by (simp_all add: totalCells_def)
  from a show "(r * colCount s + c) smod colCount s = c"
    and "\<lfloor>real_of_int (r * colCount s + c) / real_of_int (colCount s)\<rfloor> = r"
    using hover_recover [of r c s] by simp_all
  from a show "hoverHighlight (s\<lparr>hoveredTile := Some (r * colCount s + c)\<rparr>) =
              [FillRect ''rgba(233, 69, 96, 0.2)''
                 (real_of_int c * cellWidth s) (real_of_int r * cellHeight s)
                 (cellWidth s) (cellHeight s)]"
    using hoverHighlight_of_index [of r c s] by simp
next
  fix r c r' c'
  assume a: "0 \<le> r \<and> r < rowCount s \<and> 0 \<le> c \<and> c < colCount s \<and>
            0 \<le> r' \<and> r' < rowCount s \<and> 0 \<le> c' \<and> c' < colCount s \<and>
            r * colCount s + c = r' * colCount s + c'"
  then have e: "r * colCount s + c = r' * colCount s + c'" by simp
  have "(r * colCount s + c) div colCount s = r" "(r * colCount s + c) mod colCount s = c"
    using a row_major_recover [of c "colCount s" r] by simp_all
  moreover have "(r' * colCount s + c') div colCount s = r'"
    "(r' * colCount s + c') mod colCount s = c'"
    using a row_major_recover [of c' "colCount s" r'] by simp_all
  ultimately show "r = r'" and "c = c'"
    using e by simp_all
next
  fix x y t
  assume a: "0 < cellWidth s \<and> 0 < cellHeight s \<and> getTileAtPosition s x y = Some t"
  then have h: "0 \<le> row t" "row t < rowCount s" "0 \<le> col t" "col t < colCount s"
    "index t = row t * colCount s + col t"
    using hit_in_grid [of s x y t] by simp_all
  show "index t = row t * colCount s + col t"
    by (rule h(5))
  show "0 \<le> row t" "row t < rowCount s" "0 \<le> col t" "col t < colCount s"
    by (rule h)+
  show "0 \<le> index t" and "index t < totalCells s"
    using row_major_bounds [OF h(1,2,3,4)] by (simp_all add: h(5) totalCells_def)
  show "index t smod colCount s = col t"
    and "\<lfloor>real_of_int (index t) / real_of_int (colCount s)\<rfloor> = row t"
    using hover_recover [OF h(1,3,4)] by (simp_all only: h(5))
next
  show "labelRows s 0 0 =
           concat (map (\<lambda>r. concat (map (\<lambda>c. cellLabel s r c (r * colCount s + c))
                                       [0..colCount s - 1]))
                     [0..rowCount s - 1])"
    by (simp add: labelRows_closed)
qed

theorem tile_index_row_major_witness:
  "colCount sceneViewer = 2 \<and> rowCount sceneViewer = 2 \<and> totalCells sceneViewer = 4 \<and>
   (1 * 2 + 1) smod colCount sceneViewer = 1 \<and>
   \<lfloor>real_of_int (1 * 2 + 1) / real_of_int (colCount sceneViewer)\<rfloor> = 1 \<and>
   hoverHighlight (sceneViewer\<lparr>hoveredTile := Some 3\<rparr>) =
     [FillRect ''rgba(233, 69, 96, 0.2)'' 10 10 10 10] \<and>
   getTileAtPosition sceneViewer 15 12 = Some \<lparr>index = 3, row = 1, col = 1\<rparr>"
proof -
  have c: "cellWidth sceneViewer = 10" "cellHeight sceneViewer = 10"
    "colCount sceneViewer = 2" "rowCount sceneViewer = 2"
    "imageWidth sceneViewer = 20" "imageHeight sceneViewer = 20"
    by (simp_all add: scene_geometry)
  have t: "getTileAtPosition sceneViewer 15 12 = Some \<lparr>index = 3, row = 1, col = 1\<rparr>"
    by (rule scene_hits)
  have "1 \<le> colCount sceneViewer" and "1 \<le> rowCount sceneViewer"
    by (simp_all add: c)
  from tile_index_row_major [OF this] have
    "0 \<le> (1::int) \<and> 1 < rowCount sceneViewer \<and> 0 \<le> (1::int) \<and> 1 < colCount sceneViewer \<longrightarrow>
       0 \<le> 1 * colCount sceneViewer + 1 \<and> 1 * colCount sceneViewer + 1 < totalCells sceneViewer \<and>
       (1 * colCount sceneViewer + 1) smod colCount sceneViewer = 1 \<and>
       \<lfloor>real_of_int (1 * colCount sceneViewer + 1) / real_of_int (colCount sceneViewer)\<rfloor> = 1 \<and>
       hoverHighlight (sceneViewer\<lparr>hoveredTile := Some (1 * colCount sceneViewer + 1)\<rparr>) =
         [FillRect ''rgba(233, 69, 96, 0.2)''
            (real_of_int 1 * cellWidth sceneViewer) (real_of_int 1 * cellHeight sceneViewer)
            (cellWidth sceneViewer) (cellHeight sceneViewer)]"
    by blast
  then show ?thesis
    by (simp add: c t totalCells_def)
qed

section \<open>The scale bounds\<close>

lemma handleWheel_scale:
  "scale (handleWheel e s) =
     (case canvasRef s of
        None \<Rightarrow> scale s
      | Some rect \<Rightarrow>
          max MIN_SCALE (min MAX_SCALE (scale s * (if deltaY e > 0 then 9 / 10 else 11 / 10))))"
  by (simp add: handleWheel_def Let_def draw_fields split: option.split)

lemma zoomIn_scale:
  "scale (zoomIn s) =
     (case containerRef s of None \<Rightarrow> scale s | Some cont \<Rightarrow> min MAX_SCALE (scale s * (5 / 4)))"
  by (simp add: zoomIn_def Let_def draw_fields split: option.split)

lemma zoomOut_scale:
  "scale (zoomOut s) =
     (case containerRef s of None \<Rightarrow> scale s | Some cont \<Rightarrow> max MIN_SCALE (scale s * (4 / 5)))"
  by (simp add: zoomOut_def Let_def draw_fields split: option.split)

lemma handleMouseMove_scale: "scale (handleMouseMove e s) = scale s"
  by (simp add: handleMouseMove_def Let_def draw_fields)

lemma handleMouseMove_pan:
  assumes "isPanning s"
  shows "offsetX (handleMouseMove e s) = offsetX s + (clientX e - lastMouseX s)"
    and "offsetY (handleMouseMove e s) = offsetY s + (clientY e - lastMouseY s)"
    and "hoveredTile (handleMouseMove e s) = hoveredTile s"
    and "isPanning (handleMouseMove e s)"
  using assms by (simp_all add: handleMouseMove_def Let_def draw_fields)

lemma handleMouseDown_scale: "scale (handleMouseDown e s) = scale s"
  by (simp add: handleMouseDown_def)

lemma handleMouseUp_scale: "scale (fst (handleMouseUp e s)) = scale s"
  by (simp add: handleMouseUp_def Let_def split: option.split)

lemma handleMouseLeave_scale: "scale (handleMouseLeave s) = scale s"
  by (simp add: handleMouseLeave_def Let_def draw_fields)

lemma resetView_scale:
  assumes "containerRef s = Some cont" and "image s = Some img"
  shows "scale (resetView s) =
           min ((clientWidth cont - 40) / real (naturalWidth img))
             (min ((clientHeight cont - 40) / real (naturalHeight img)) 1)"
    and "offsetX (resetView s) =
           (clientWidth cont - real (naturalWidth img) * scale (resetView s)) / 2"
    and "offsetY (resetView s) =
           (clientHeight cont - real (naturalHeight img) * scale (resetView s)) / 2"
  using assms by (simp_all add: resetView_def Let_def)

lemma resetView_scale_le_1:
  "scale (resetView s) = scale s \<or> scale (resetView s) \<le> 1"
  by (auto simp add: resetView_def Let_def min_le_iff_disj split: option.split)

lemma upper_bound_kept:
  assumes "scale s \<le> MAX_SCALE"
  shows "scale (handleWheel e s) \<le> MAX_SCALE" and "scale (zoomIn s) \<le> MAX_SCALE"
    and "scale (zoomOut s) \<le> MAX_SCALE" and "scale (handleMouseMove m s) \<le> MAX_SCALE"
    and "scale (handleMouseDown m s) \<le> MAX_SCALE"
    and "scale (fst (handleMouseUp m s)) \<le> MAX_SCALE"
    and "scale (handleMouseLeave s) \<le> MAX_SCALE"
    and "scale (resetView s) \<le> MAX_SCALE" and "scale (onload img s) \<le> MAX_SCALE"
    and "scale (draw s) \<le> MAX_SCALE"
proof -
  show "scale (handleWheel e s) \<le> MAX_SCALE"
    using assms clamp_between(2) by (simp add: handleWheel_scale split: option.split)
  show "scale (zoomIn s) \<le> MAX_SCALE"
    using assms by (simp add: zoomIn_scale split: option.split)
  have "scale s * (4 / 5) \<le> MAX_SCALE"
    using assms by (simp add: MAX_SCALE_def)
  then show "scale (zoomOut s) \<le> MAX_SCALE"
    using assms scale_bounds_ordered by (simp add: zoomOut_scale split: option.split)
  show "scale (handleMouseMove m s) \<le> MAX_SCALE"
    and "scale (handleMouseDown m s) \<le> MAX_SCALE"
    and "scale (fst (handleMouseUp m s)) \<le> MAX_SCALE"
    and "scale (handleMouseLeave s) \<le> MAX_SCALE"
    and "scale (draw s) \<le> MAX_SCALE"
    using assms
    by (simp_all add: handleMouseMove_scale handleMouseDown_scale handleMouseUp_scale
        handleMouseLeave_scale draw_fields)
  have one: "(1::real) \<le> MAX_SCALE"
    by (simp add: MAX_SCALE_def)
  show "scale (resetView s) \<le> MAX_SCALE"
    using resetView_scale_le_1 [of s] assms one by linarith
  have "scale (s\<lparr>image := Some img, imageLoaded := True\<rparr>) \<le> MAX_SCALE"
    using assms by simp
  then have "scale (resetView (s\<lparr>image := Some img, imageLoaded := True\<rparr>)) \<le> MAX_SCALE"
    using resetView_scale_le_1 [of "s\<lparr>image := Some img, imageLoaded := True\<rparr>"] one
    by linarith
  then show "scale (onload img s) \<le> MAX_SCALE"
    by (simp add: onload_def draw_fields)
qed

lemma lower_bound_kept:
  assumes "MIN_SCALE \<le> scale s"
  shows "MIN_SCALE \<le> scale (handleWheel e s)" and "MIN_SCALE \<le> scale (zoomIn s)"
    and "MIN_SCALE \<le> scale (zoomOut s)" and "MIN_SCALE \<le> scale (handleMouseMove m s)"
    and "MIN_SCALE \<le> scale (handleMouseDown m s)"
    and "MIN_SCALE \<le> scale (fst (handleMouseUp m s))"
    and "MIN_SCALE \<le> scale (handleMouseLeave s)"
proof -
  show "MIN_SCALE \<le> scale (handleWheel e s)"
    using assms clamp_between(1) by (simp add: handleWheel_scale split: option.split)
  have "MIN_SCALE \<le> scale s * (5 / 4)"
    using assms by (simp add: MIN_SCALE_def)
  then show "MIN_SCALE \<le> scale (zoomIn s)"
    using assms scale_bounds_ordered by (simp add: zoomIn_scale split: option.split)
  show "MIN_SCALE \<le> scale (zoomOut s)"
    using assms by (simp add: zoomOut_scale split: option.split)
  show "MIN_SCALE \<le> scale (handleMouseMove m s)"
    and "MIN_SCALE \<le> scale (handleMouseDown m s)"
    and "MIN_SCALE \<le> scale (fst (handleMouseUp m s))"
    and "MIN_SCALE \<le> scale (handleMouseLeave s)"
    using assms
    by (simp_all add: handleMouseMove_scale handleMouseDown_scale handleMouseUp_scale
        handleMouseLeave_scale)
qed

lemma reachable_upper_bound:
  assumes "reachable s"
  shows "scale s \<le> MAX_SCALE"
  using assms
proof (induction rule: reachable.induct)
  case (mounted gx gy m cont cv)
  show ?case by (simp add: initialViewer_def MAX_SCALE_def)
next
  case (propsChanged s gx gy m b sel)
  then show ?case by (simp add: draw_fields)
next
  case (resized s cont)
  then show ?case by (simp add: draw_fields)
qed (simp_all only: upper_bound_kept)

text \<open>
  C5. In every reachable state the scale is at most \<open>MAX_SCALE\<close>, and wheel zoom, the zoom
  buttons, panning, the other pointer handlers and the reset keep \<open>scale \<le> MAX_SCALE\<close>.
  Wheel zoom, the zoom buttons, panning and the other pointer handlers keep
  \<open>MIN_SCALE \<le> scale\<close>, and wheel zoom brings any scale into \<open>[MIN_SCALE, MAX_SCALE]\<close>.
  Panning adds the pointer's movement to the offsets and leaves the scale as it is. The
  reset sets
  \<open>scale = min ((containerWidth - 40) / imageWidth) ((containerHeight - 40) / imageHeight) 1\<close>,
  which is at most 1 but has no lower bound.
\<close>

theorem zoom_and_pan_keep_scale_bounds:
  "(reachable s \<longrightarrow> scale s \<le> MAX_SCALE) \<and>
   (scale s \<le> MAX_SCALE \<longrightarrow>
      scale (handleWheel e s) \<le> MAX_SCALE \<and> scale (zoomIn s) \<le> MAX_SCALE \<and>
      scale (zoomOut s) \<le> MAX_SCALE \<and> scale (handleMouseMove m s) \<le> MAX_SCALE \<and>
      scale (handleMouseDown m s) \<le> MAX_SCALE \<and>
      scale (fst (handleMouseUp m s)) \<le> MAX_SCALE \<and>
      scale (handleMouseLeave s) \<le> MAX_SCALE \<and>
      scale (resetView s) \<le> MAX_SCALE \<and> scale (onload img s) \<le> MAX_SCALE) \<and>
   (MIN_SCALE \<le> scale s \<longrightarrow>
      MIN_SCALE \<le> scale (handleWheel e s) \<and> MIN_SCALE \<le> scale (zoomIn s) \<and>
      MIN_SCALE \<le> scale (zoomOut s) \<and> MIN_SCALE \<le> scale (handleMouseMove m s) \<and>
      MIN_SCALE \<le> scale (handleMouseDown m s) \<and>
      MIN_SCALE \<le> scale (fst (handleMouseUp m s)) \<and>
      MIN_SCALE \<le> scale (handleMouseLeave s)) \<and>
   scale (handleMouseMove m s) = scale s \<and>
   (isPanning s \<longrightarrow>
      offsetX (handleMouseMove m s) = offsetX s + (clientX m - lastMouseX s) \<and>
      offsetY (handleMouseMove m s) = offsetY s + (clientY m - lastMouseY s)) \<and>
   scale (handleMouseDown m s) = scale s \<and>
   scale (fst (handleMouseUp m s)) = scale s \<and>
   scale (handleMouseLeave s) = scale s \<and>
   (canvasRef s \<noteq> None \<longrightarrow>
      MIN_SCALE \<le> scale (handleWheel e s) \<and> scale (handleWheel e s) \<le> MAX_SCALE) \<and>
   (\<forall>cont im. containerRef s = Some cont \<and> image s = Some im \<and>
      1 \<le> naturalWidth im \<and> 1 \<le> naturalHeight im \<longrightarrow>
      scale (resetView s) =
        min ((clientWidth cont - 40) / real (naturalWidth im))
          (min ((clientHeight cont - 40) / real (naturalHeight im)) 1) \<and>
      scale (resetView s) \<le> 1)"
proof -
  have reach: "reachable s \<longrightarrow> scale s \<le> MAX_SCALE"
    using reachable_upper_bound by blast
  have upper: "scale s \<le> MAX_SCALE \<longrightarrow>
      scale (handleWheel e s) \<le> MAX_SCALE \<and> scale (zoomIn s) \<le> MAX_SCALE \<and>
      scale (zoomOut s) \<le> MAX_SCALE \<and> scale (handleMouseMove m s) \<le> MAX_SCALE \<and>
      scale (handleMouseDown m s) \<le> MAX_SCALE \<and>
      scale (fst (handleMouseUp m s)) \<le> MAX_SCALE \<and>
      scale (handleMouseLeave s) \<le> MAX_SCALE \<and>
      scale (resetView s) \<le> MAX_SCALE \<and> scale (onload img s) \<le> MAX_SCALE"
    using upper_bound_kept [of s] by blast
  have lower: "MIN_SCALE \<le> scale s \<longrightarrow>
      MIN_SCALE \<le> scale (handleWheel e s) \<and> MIN_SCALE \<le> scale (zoomIn s) \<and>
      MIN_SCALE \<le> scale (zoomOut s) \<and> MIN_SCALE \<le> scale (handleMouseMove m s) \<and>
      MIN_SCALE \<le> scale (handleMouseDown m s) \<and>
      MIN_SCALE \<le> scale (fst (handleMouseUp m s)) \<and>
      MIN_SCALE \<le> scale (handleMouseLeave s)"
    using lower_bound_kept [of s] by blast
  have anywheel: "canvasRef s \<noteq> None \<longrightarrow>
      MIN_SCALE \<le> scale (handleWheel e s) \<and> scale (handleWheel e s) \<le> MAX_SCALE"
    using clamp_between by (auto simp add: handleWheel_scale)
  have reset: "\<forall>cont im. containerRef s = Some cont \<and> image s = Some im \<and>
      1 \<le> naturalWidth im \<and> 1 \<le> naturalHeight im \<longrightarrow>
      scale (resetView s) =
        min ((clientWidth cont - 40) / real (naturalWidth im))
          (min ((clientHeight cont - 40) / real (naturalHeight im)) 1) \<and>
      scale (resetView s) \<le> 1"
    by (auto simp add: resetView_scale(1))
  have pan: "isPanning s \<longrightarrow>
      offsetX (handleMouseMove m s) = offsetX s + (clientX m - lastMouseX s) \<and>
      offsetY (handleMouseMove m s) = offsetY s + (clientY m - lastMouseY s)"
    using handleMouseMove_pan(1,2) [of s m] by blast
  note other = handleMouseMove_scale [of m s] handleMouseDown_scale [of m s]
    handleMouseUp_scale [of m s] handleMouseLeave_scale [of s]
  show ?thesis
    using reach upper lower pan other anywheel reset by blast
qed

text \<open>
  The reset is not bounded below: an image of 10000 by 10000 pixels, loaded into the
  800 by 600 container of a freshly set up viewer, is shown at scale 0.056.
\<close>

theorem reset_scale_below_minimum:
  "reachable (onload largeImage (initialViewer 16 16 Size sceneContainer sceneCanvas)) \<and>
   scale (initialViewer 16 16 Size sceneContainer sceneCanvas) = 1 \<and>
   scale (onload largeImage (initialViewer 16 16 Size sceneContainer sceneCanvas)) = 7 / 125 \<and>
   \<not> MIN_SCALE \<le> scale (onload largeImage (initialViewer 16 16 Size sceneContainer sceneCanvas))"
proof -
  let ?s = "(initialViewer 16 16 Size sceneContainer sceneCanvas)
              \<lparr>image := Some largeImage, imageLoaded := True\<rparr>"
  have "containerRef ?s = Some sceneContainer" and "image ?s = Some largeImage"
    by (simp_all add: initialViewer_def)
  from resetView_scale(1) [OF this] have "scale (resetView ?s) = 7 / 125"
    by (simp add: sceneContainer_def largeImage_def)
  moreover have "reachable (onload largeImage (initialViewer 16 16 Size sceneContainer sceneCanvas))"
    by (intro reachable.loaded reachable.mounted) (simp_all add: largeImage_def)
  ultimately show ?thesis
    by (simp add: onload_def draw_fields MIN_SCALE_def initialViewer_def)
qed

theorem zoom_and_pan_keep_scale_bounds_witness:
  "MIN_SCALE \<le> scale sceneViewer \<and> scale sceneViewer \<le> MAX_SCALE \<and>
   scale (zoomIn sceneViewer) = 5 / 4 \<and> scale (zoomOut sceneViewer) = 4 / 5 \<and>
   scale (handleWheel (wheelAt 408 343 1) sceneViewer) = 9 / 10 \<and>
   MIN_SCALE \<le> scale (zoomOut sceneViewer) \<and> scale (zoomIn sceneViewer) \<le> MAX_SCALE \<and>
   scale (resetView sceneViewer) = 1 \<and>
   reachable (onload largeImage (initialViewer 16 16 Size sceneContainer sceneCanvas)) \<and>
   scale (onload largeImage (initialViewer 16 16 Size sceneContainer sceneCanvas)) \<le> MAX_SCALE \<and>
   scale (zoomIn (onload largeImage (initialViewer 16 16 Size sceneContainer sceneCanvas)))
     \<le> MAX_SCALE"
proof -
  let ?t = "onload largeImage (initialViewer 16 16 Size sceneContainer sceneCanvas)"
  have v: "canvasRef sceneViewer = Some sceneCanvas" "scale sceneViewer = 1"
    "containerRef sceneViewer = Some sceneContainer" "image sceneViewer = Some sceneImage"
    by (simp_all add: sceneViewer_eq)
  have r: "scale (resetView sceneViewer) = 1"
    by (simp add: resetView_scale(1) [OF v(3,4)] sceneContainer_def sceneImage_def)
  have t: "reachable ?t"
    by (intro reachable.loaded reachable.mounted) (simp_all add: largeImage_def)
  show ?thesis
    using zoom_and_pan_keep_scale_bounds
        [of sceneViewer "wheelAt 408 343 1" "mouseAt 0 0 0 False" sceneImage]
      zoom_and_pan_keep_scale_bounds [of ?t "wheelAt 408 343 1" "mouseAt 0 0 0 False" sceneImage]
    by (simp add: v r t zoomIn_scale zoomOut_scale handleWheel_scale wheelAt_def
        MIN_SCALE_def MAX_SCALE_def)
qed

section \<open>Images with a zero dimension\<close>

lemma zero_width_geometry:
  assumes "image s = Some img" and "naturalWidth img = 0" and "1 \<le> gridX s"
  shows "gridMode s = Size \<Longrightarrow> colCount s = 1 \<and> cellWidth s = real_of_int (gridX s)"
    and "gridMode s = Count \<Longrightarrow> colCount s = gridX s \<and> cellWidth s = 0"
  using assms by (simp_all add: colCount_def cellWidth_def imageWidth_def numDiv_def toDouble_zero)

lemma zero_height_geometry:
  assumes "image s = Some img" and "naturalHeight img = 0" and "1 \<le> gridY s"
  shows "gridMode s = Size \<Longrightarrow> rowCount s = 1 \<and> cellHeight s = real_of_int (gridY s)"
    and "gridMode s = Count \<Longrightarrow> rowCount s = gridY s \<and> cellHeight s = 0"
  using assms by (simp_all add: rowCount_def cellHeight_def imageHeight_def numDiv_def toDouble_zero)

lemma zero_dimension_no_hit:
  assumes "image s = Some img" and "naturalWidth img = 0 \<or> naturalHeight img = 0"
  shows "getTileAtPosition s x y = None"
proof -
  have "imageWidth s = 0 \<or> imageHeight s = 0"
    using assms by (auto simp add: imageWidth_def imageHeight_def)
  then have "x < 0 \<or> y < 0 \<or> imageWidth s \<le> x \<or> imageHeight s \<le> y"
    by (cases "x < 0"; cases "y < 0") auto
  then show ?thesis
    unfolding getTileAtPosition_def by (simp only: if_True)
qed

text \<open>
  C6. For grid parameters of at least 1 and an image with a zero dimension:
  along a zero dimension, \<open>size\<close> mode gives a count of 1 and the configured cell size,
  and \<open>count\<close> mode gives the configured count and a cell size of 0; no point is a hit.
  No division by zero is evaluated, since the divisors are the grid parameters.
\<close>

theorem zero_dimension_geometry:
  assumes "image s = Some img" and "1 \<le> gridX s" and "1 \<le> gridY s"
  shows "(naturalWidth img = 0 \<longrightarrow>
            (gridMode s = Size \<longrightarrow> colCount s = 1 \<and> cellWidth s = real_of_int (gridX s)) \<and>
            (gridMode s = Count \<longrightarrow> colCount s = gridX s \<and> cellWidth s = 0)) \<and>
         (naturalHeight img = 0 \<longrightarrow>
            (gridMode s = Size \<longrightarrow> rowCount s = 1 \<and> cellHeight s = real_of_int (gridY s)) \<and>
            (gridMode s = Count \<longrightarrow> rowCount s = gridY s \<and> cellHeight s = 0)) \<and>
         (naturalWidth img = 0 \<or> naturalHeight img = 0 \<longrightarrow>
            (\<forall>x y. getTileAtPosition s x y = None))"
  using zero_width_geometry [OF assms(1) _ assms(2)] zero_height_geometry [OF assms(1) _ assms(3)]
    zero_dimension_no_hit [OF assms(1)]
  by blast

theorem zero_dimension_geometry_witness:
  "colCount (sceneViewer\<lparr>image := Some emptyImage\<rparr>) = 1 \<and>
   rowCount (sceneViewer\<lparr>image := Some emptyImage\<rparr>) = 1 \<and>
   cellWidth (sceneViewer\<lparr>image := Some emptyImage\<rparr>) = 10 \<and>
   cellHeight (sceneViewer\<lparr>image := Some emptyImage\<rparr>) = 10 \<and>
   colCount (sceneViewer\<lparr>image := Some emptyImage, gridMode := Count\<rparr>) = 10 \<and>
   rowCount (sceneViewer\<lparr>image := Some emptyImage, gridMode := Count\<rparr>) = 10 \<and>
   cellWidth (sceneViewer\<lparr>image := Some emptyImage, gridMode := Count\<rparr>) = 0 \<and>
   cellHeight (sceneViewer\<lparr>image := Some emptyImage, gridMode := Count\<rparr>) = 0 \<and>
   getTileAtPosition (sceneViewer\<lparr>image := Some emptyImage\<rparr>) 0 0 = None"
  using zero_dimension_geometry [of "sceneViewer\<lparr>image := Some emptyImage\<rparr>" emptyImage]
    zero_dimension_geometry [of "sceneViewer\<lparr>image := Some emptyImage, gridMode := Count\<rparr>" emptyImage]
  by (simp add: sceneViewer_eq emptyImage_def)

text \<open>
  On an image of 0 by 0 pixels the cells of \<open>size\<close> mode are not zero-sized, and the counts
  of \<open>count\<close> mode are not 1.
\<close>

theorem zero_dimension_cells_not_zero_sized:
  "\<not> (colCount (sceneViewer\<lparr>image := Some emptyImage\<rparr>) = 1 \<and>
      rowCount (sceneViewer\<lparr>image := Some emptyImage\<rparr>) = 1 \<and>
      cellWidth (sceneViewer\<lparr>image := Some emptyImage\<rparr>) = 0 \<and>
      cellHeight (sceneViewer\<lparr>image := Some emptyImage\<rparr>) = 0) \<and>
   \<not> (colCount (sceneViewer\<lparr>image := Some emptyImage, gridMode := Count\<rparr>) = 1 \<and>
      rowCount (sceneViewer\<lparr>image := Some emptyImage, gridMode := Count\<rparr>) = 1 \<and>
      cellWidth (sceneViewer\<lparr>image := Some emptyImage, gridMode := Count\<rparr>) = 0 \<and>
      cellHeight (sceneViewer\<lparr>image := Some emptyImage, gridMode := Count\<rparr>) = 0)"
  by (simp add: sceneViewer_eq emptyImage_def colCount_def cellWidth_def imageWidth_def)

section \<open>The hover highlight\<close>

lemma checkerRow_no_hover: "filter isHoverFill (checkerRow w y x) = []"
proof (induction w y x rule: checkerRow.induct)
  case (1 w y x)
  then show ?case
    by (subst checkerRow.simps) simp
qed

lemma checkerboard_no_hover: "filter isHoverFill (checkerboard w h y) = []"
proof (induction w h y rule: checkerboard.induct)
  case (1 w h y)
  then show ?case
    by (subst checkerboard.simps) (simp add: checkerRow_no_hover)
qed

lemma gridLines_no_hover: "filter isHoverFill (gridLines s) = []"
  by (simp add: gridLines_def Let_def filter_empty_conv)

lemma selectionHighlight_no_hover: "filter isHoverFill (selectionHighlight s) = []"
  by (simp add: selectionHighlight_def split: option.split)

lemma cellLabel_no_hover: "filter isHoverFill (cellLabel s r c i) = []"
  by (simp add: cellLabel_def Let_def)

lemma labelCols_no_hover: "filter isHoverFill (fst (labelCols s r c i)) = []"
proof (induction s r c i rule: labelCols.induct)
  case (1 s r c i)
  then show ?case
    by (subst labelCols.simps) (simp add: Let_def cellLabel_no_hover)
qed

lemma labelRows_no_hover: "filter isHoverFill (labelRows s r i) = []"
proof (induction s r i rule: labelRows.induct)
  case (1 s r i)
  then show ?case
    by (subst labelRows.simps) (simp add: Let_def labelCols_no_hover)
qed

lemma numberLabels_no_hover: "filter isHoverFill (numberLabels s) = []"
  by (simp add: numberLabels_def labelRows_no_hover)

lemma hoverHighlight_all_hover: "filter isHoverFill (hoverHighlight s) = hoverHighlight s"
  by (simp add: hoverHighlight_def Let_def split: option.split)

lemma hoverHighlight_empty: "hoverHighlight s = [] \<longleftrightarrow> hoveredTile s = None"
  by (simp add: hoverHighlight_def Let_def split: option.split)

lemma drawFrame_hover_fills: "filter isHoverFill (drawFrame s cont img) = hoverHighlight s"
  by (simp add: drawFrame_def Let_def checkerboard_no_hover gridLines_no_hover
      selectionHighlight_no_hover numberLabels_no_hover hoverHighlight_all_hover)

lemma draw_frame:
  assumes "canvasRef s = Some cv" and "image s = Some img" and "containerRef s = Some cont"
  shows "frame (draw s) = drawFrame s cont img"
  using assms by (simp add: draw_def)

lemma hoverHighlight_cong:
  assumes "hoveredTile t = hoveredTile s" and "gridX t = gridX s" and "gridY t = gridY s"
    and "gridMode t = gridMode s" and "image t = image s"
  shows "hoverHighlight t = hoverHighlight s"
proof -
  have "colCount t = colCount s" and "cellWidth t = cellWidth s"
    and "cellHeight t = cellHeight s"
    using assms(2-5)
    by (simp_all add: colCount_def cellWidth_def cellHeight_def imageWidth_def imageHeight_def)
  then show ?thesis
    unfolding hoverHighlight_def using assms(1) by (simp split: option.split)
qed

lemma geometry_ignores_isPanning:
  shows "colCount (s\<lparr>isPanning := b\<rparr>) = colCount s"
    and "rowCount (s\<lparr>isPanning := b\<rparr>) = rowCount s"
    and "cellWidth (s\<lparr>isPanning := b\<rparr>) = cellWidth s"
    and "cellHeight (s\<lparr>isPanning := b\<rparr>) = cellHeight s"
    and "imageWidth (s\<lparr>isPanning := b\<rparr>) = imageWidth s"
    and "imageHeight (s\<lparr>isPanning := b\<rparr>) = imageHeight s"
  by (simp_all add: colCount_def rowCount_def cellWidth_def cellHeight_def
      imageWidth_def imageHeight_def)

lemma cellLabel_ignores_isPanning:
  "cellLabel (s\<lparr>isPanning := b\<rparr>) r c i = cellLabel s r c i"
  by (simp add: cellLabel_def geometry_ignores_isPanning)

lemma drawFrame_ignores_isPanning:
  "drawFrame (s\<lparr>isPanning := b\<rparr>) cont img = drawFrame s cont img"
proof -
  have "gridLines (s\<lparr>isPanning := b\<rparr>) = gridLines s"
    by (simp add: gridLines_def geometry_ignores_isPanning)
  moreover have "hoverHighlight (s\<lparr>isPanning := b\<rparr>) = hoverHighlight s"
    by (rule hoverHighlight_cong) simp_all
  moreover have "selectionHighlight (s\<lparr>isPanning := b\<rparr>) = selectionHighlight s"
    by (simp add: selectionHighlight_def geometry_ignores_isPanning split: option.split)
  moreover have "numberLabels (s\<lparr>isPanning := b\<rparr>) = numberLabels s"
    by (simp add: numberLabels_def labelRows_closed geometry_ignores_isPanning
        cellLabel_ignores_isPanning)
  ultimately show ?thesis
    by (simp add: drawFrame_def)
qed

lemma pan_move_frame:
  assumes "isPanning s"
    and "canvasRef s = Some cv" and "image s = Some img" and "containerRef s = Some cont"
  shows "filter isHoverFill (frame (handleMouseMove e s)) = hoverHighlight s"
proof -
  let ?t = "s\<lparr>offsetX := offsetX s + (clientX e - lastMouseX s),
              offsetY := offsetY s + (clientY e - lastMouseY s),
              lastMouseX := clientX e, lastMouseY := clientY e\<rparr>"
  have m: "handleMouseMove e s = draw ?t"
    using assms(1) by (simp add: handleMouseMove_def Let_def)
  have "frame (draw ?t) = drawFrame ?t cont img"
    using assms(2,3,4) by (intro draw_frame) simp_all
  then have "filter isHoverFill (frame (handleMouseMove e s)) = hoverHighlight ?t"
    by (simp add: m drawFrame_hover_fills)
  also have "hoverHighlight ?t = hoverHighlight s"
    by (rule hoverHighlight_cong) simp_all
  finally show ?thesis .
qed

text \<open>
  C7. \<open>draw\<close> paints the hover highlight exactly when \<open>hoveredTile\<close> is not
  \<open>null\<close>: the hover fills of the frame are the rectangle of the hovered tile, and the
  frame does not depend on \<open>isPanning\<close>. A pointer move during a pan leaves \<open>hoveredTile\<close> as it is and repaints,
  so a tile hovered when the pan began stays highlighted.
\<close>

theorem hover_highlight_follows_hoveredTile:
  assumes "canvasRef s = Some cv" and "image s = Some img" and "containerRef s = Some cont"
    and "1 \<le> gridX s" and "1 \<le> gridY s" and "0 < scale s"
  shows "frame (draw s) = drawFrame s cont img \<and>
         filter isHoverFill (frame (draw s)) = hoverHighlight s \<and>
         (filter isHoverFill (frame (draw s)) = [] \<longleftrightarrow> hoveredTile s = None) \<and>
         frame (draw (s\<lparr>isPanning := b\<rparr>)) = frame (draw s) \<and>
         (isPanning s \<longrightarrow>
            hoveredTile (handleMouseMove e s) = hoveredTile s \<and>
            filter isHoverFill (frame (handleMouseMove e s)) = hoverHighlight s)"
proof -
  have f: "frame (draw s) = drawFrame s cont img"
    using assms(1-3) by (rule draw_frame)
  then have h: "filter isHoverFill (frame (draw s)) = hoverHighlight s"
    by (simp add: drawFrame_hover_fills)
  have "frame (draw (s\<lparr>isPanning := b\<rparr>)) = drawFrame (s\<lparr>isPanning := b\<rparr>) cont img"
    using assms(1-3) by (intro draw_frame) simp_all
  then have p: "frame (draw (s\<lparr>isPanning := b\<rparr>)) = frame (draw s)"
    by (simp add: f drawFrame_ignores_isPanning)
  have m: "isPanning s \<longrightarrow>
            hoveredTile (handleMouseMove e s) = hoveredTile s \<and>
            filter isHoverFill (frame (handleMouseMove e s)) = hoverHighlight s"
    using pan_move_frame [OF _ assms(1-3)] handleMouseMove_pan(3) by blast
  show ?thesis
    using f h p m hoverHighlight_empty [of s] by simp
qed

lemma hover_move:
  assumes "\<not> isPanning s"
  shows "\<exists>f. handleMouseMove e s =
           s\<lparr>hoveredTile := map_option index
                (getTileAtPosition s (fst (screenToImage s (clientX e) (clientY e)))
                   (snd (screenToImage s (clientX e) (clientY e)))),
             frame := f\<rparr>"
proof -
  let ?h = "map_option index
                (getTileAtPosition s (fst (screenToImage s (clientX e) (clientY e)))
                   (snd (screenToImage s (clientX e) (clientY e))))"
  show ?thesis
  proof (cases "?h = hoveredTile s")
    case True
    then have "handleMouseMove e s = s"
      using assms by (simp add: handleMouseMove_def Let_def)
    also have "s = s\<lparr>hoveredTile := ?h, frame := frame s\<rparr>"
      using True by simp
    finally show ?thesis by blast
  next
    case False
    then have "handleMouseMove e s = draw (s\<lparr>hoveredTile := ?h\<rparr>)"
      using assms by (simp add: handleMouseMove_def Let_def)
    also have "\<dots> = s\<lparr>hoveredTile := ?h,
        frame := frame (draw (s\<lparr>hoveredTile := ?h\<rparr>))\<rparr>"
      by (simp add: draw_def split: option.split)
    finally show ?thesis by blast
  qed
qed

text \<open>
  Hovering tile 1, pressing Shift and the primary button, and moving the pointer by one
  pixel: the viewer is panning and the frame it has just painted holds the hover fill.
\<close>

theorem hover_highlight_drawn_while_panning:
  "isPanning
     (handleMouseMove (mouseAt 409 343 0 True)
        (handleMouseDown (mouseAt 408 343 0 True)
           (handleMouseMove (mouseAt 408 343 0 False) sceneViewer))) \<and>
   filter isHoverFill
     (frame
        (handleMouseMove (mouseAt 409 343 0 True)
           (handleMouseDown (mouseAt 408 343 0 True)
              (handleMouseMove (mouseAt 408 343 0 False) sceneViewer)))) =
     [FillRect ''rgba(233, 69, 96, 0.2)'' 10 0 10 10]"
proof -
  let ?s1 = "handleMouseMove (mouseAt 408 343 0 False) sceneViewer"
  let ?s2 = "handleMouseDown (mouseAt 408 343 0 True) ?s1"
  have c: "cellWidth sceneViewer = 10" "cellHeight sceneViewer = 10"
    "colCount sceneViewer = 2" "rowCount sceneViewer = 2"
    "imageWidth sceneViewer = 20" "imageHeight sceneViewer = 20"
    by (simp_all add: scene_geometry)
  have p: "screenToImage sceneViewer 408 343 = (10, 5)"
    by (rule scene_points)
  have t: "getTileAtPosition sceneViewer 10 5 = Some \<lparr>index = 1, row = 0, col = 1\<rparr>"
    by (rule scene_hits)
  have "\<not> isPanning sceneViewer"
    by (simp add: sceneViewer_eq)
  from hover_move [OF this, of "mouseAt 408 343 0 False"]
  obtain f where s1: "?s1 = sceneViewer\<lparr>hoveredTile := Some 1, frame := f\<rparr>"
    by (auto simp add: mouseAt_def p t)
  have s2: "?s2 = sceneViewer\<lparr>hoveredTile := Some 1, frame := f, isPanning := True,
      lastMouseX := 408, lastMouseY := 343\<rparr>"
    unfolding s1 by (simp add: handleMouseDown_def mouseAt_def)
  have r: "isPanning ?s2" "canvasRef ?s2 = Some sceneCanvas" "image ?s2 = Some sceneImage"
    "containerRef ?s2 = Some sceneContainer"
    unfolding s2 by (simp_all add: sceneViewer_eq)
  have "hoverHighlight ?s2 = hoverHighlight (sceneViewer\<lparr>hoveredTile := Some 1\<rparr>)"
    unfolding s2 by (rule hoverHighlight_cong) simp_all
  also have "\<dots> = [FillRect ''rgba(233, 69, 96, 0.2)'' 10 0 10 10]"
    using hoverHighlight_of_index [of 0 1 sceneViewer] by (simp add: c)
  finally have h: "hoverHighlight ?s2 = [FillRect ''rgba(233, 69, 96, 0.2)'' 10 0 10 10]" .
  show ?thesis
    using pan_move_frame [OF r, of "mouseAt 409 343 0 True"]
      handleMouseMove_pan(4) [OF r(1), of "mouseAt 409 343 0 True"]
    by (simp add: h)
qed

theorem hover_highlight_follows_hoveredTile_witness:
  "filter isHoverFill (frame (draw (sceneViewer\<lparr>hoveredTile := Some 3, isPanning := True\<rparr>))) =
     [FillRect ''rgba(233, 69, 96, 0.2)'' 10 10 10 10] \<and>
   filter isHoverFill (frame (draw sceneViewer)) = []"
proof -
  let ?s = "sceneViewer\<lparr>hoveredTile := Some 3, isPanning := True\<rparr>"
  have c: "cellWidth sceneViewer = 10" "cellHeight sceneViewer = 10"
    "colCount sceneViewer = 2"
    by (simp_all add: scene_geometry)
  have r: "canvasRef ?s = Some sceneCanvas" "image ?s = Some sceneImage"
    "containerRef ?s = Some sceneContainer"
    "canvasRef sceneViewer = Some sceneCanvas" "image sceneViewer = Some sceneImage"
    "containerRef sceneViewer = Some sceneContainer" "hoveredTile sceneViewer = None"
    by (simp_all add: sceneViewer_eq)
  have g: "1 \<le> gridX ?s" "1 \<le> gridY ?s" "0 < scale ?s"
    "1 \<le> gridX sceneViewer" "1 \<le> gridY sceneViewer" "0 < scale sceneViewer"
    by (simp_all add: sceneViewer_eq)
  have "hoverHighlight ?s = hoverHighlight (sceneViewer\<lparr>hoveredTile := Some 3\<rparr>)"
    by (rule hoverHighlight_cong) simp_all
  also have "\<dots> = [FillRect ''rgba(233, 69, 96, 0.2)'' 10 10 10 10]"
    using hoverHighlight_of_index [of 1 1 sceneViewer] by (simp add: c)
  finally have h: "hoverHighlight ?s = [FillRect ''rgba(233, 69, 96, 0.2)'' 10 10 10 10]" .
  show ?thesis
    using hover_highlight_follows_hoveredTile [OF r(1,2,3) g(1,2,3), of True "mouseAt 0 0 0 False"]
      hover_highlight_follows_hoveredTile [OF r(4,5,6) g(4,5,6), of True "mouseAt 0 0 0 False"]
    by (simp add: h r(7) drawFrame_hover_fills hoverHighlight_empty)
qed

section \<open>Pointer gestures\<close>

lemma handleMouseUp_panning:
  assumes "isPanning s"
  shows "handleMouseUp e s = (s\<lparr>isPanning := False\<rparr>, [])"
  using assms by (simp add: handleMouseUp_def)

lemma handleMouseUp_click:
  assumes "\<not> isPanning s" and "button e = 0" and "\<not> shiftKey e"
  shows "handleMouseUp e s =
           (s, case getTileAtPosition s (fst (screenToImage s (clientX e) (clientY e)))
                      (snd (screenToImage s (clientX e) (clientY e))) of
                 None \<Rightarrow> []
               | Some t \<Rightarrow> [t])"
  using assms by (simp add: handleMouseUp_def Let_def split: option.split)

lemma handleMouseUp_other:
  assumes "\<not> isPanning s" and "\<not> (button e = 0 \<and> \<not> shiftKey e)"
  shows "handleMouseUp e s = (s, [])"
  using assms by (auto simp add: handleMouseUp_def)

lemma handleMouseUp_at_most_one: "length (snd (handleMouseUp e s)) \<le> 1"
  by (simp add: handleMouseUp_def Let_def split: option.split)

text \<open>
  C8. A release while panning ends the pan, changes nothing else and emits nothing. A
  release of the primary button without Shift while not panning (the scale and the cell
  sizes being positive) leaves the state as it is and emits the tile of the hit test if
  there is one, and nothing on a miss; an emitted tile carries
  \<open>index = row * colCount + col\<close> within \<open>[0, totalCells)\<close>; no release emits more than one
  event.
\<close>

theorem mouse_up_selects_tile:
  "(isPanning s \<longrightarrow> handleMouseUp e s = (s\<lparr>isPanning := False\<rparr>, [])) \<and>
   (\<not> isPanning s \<and> button e = 0 \<and> \<not> shiftKey e \<and>
    0 < scale s \<and> 0 < cellWidth s \<and> 0 < cellHeight s \<longrightarrow>
      fst (handleMouseUp e s) = s \<and>
      (\<forall>t. snd (handleMouseUp e s) = [t] \<longleftrightarrow>
           getTileAtPosition s (fst (screenToImage s (clientX e) (clientY e)))
             (snd (screenToImage s (clientX e) (clientY e))) = Some t) \<and>
      (snd (handleMouseUp e s) = [] \<longleftrightarrow>
           getTileAtPosition s (fst (screenToImage s (clientX e) (clientY e)))
             (snd (screenToImage s (clientX e) (clientY e))) = None)) \<and>
   (\<forall>t. 0 < scale s \<and> 0 < cellWidth s \<and> 0 < cellHeight s \<and>
        t \<in> set (snd (handleMouseUp e s)) \<longrightarrow>
      index t = row t * colCount s + col t \<and> 0 \<le> index t \<and> index t < totalCells s) \<and>
   length (snd (handleMouseUp e s)) \<le> 1"
proof -
  have pan: "isPanning s \<longrightarrow> handleMouseUp e s = (s\<lparr>isPanning := False\<rparr>, [])"
    using handleMouseUp_panning by blast
  have click: "fst (handleMouseUp e s) = s \<and>
      (\<forall>t. snd (handleMouseUp e s) = [t] \<longleftrightarrow>
           getTileAtPosition s (fst (screenToImage s (clientX e) (clientY e)))
             (snd (screenToImage s (clientX e) (clientY e))) = Some t) \<and>
      (snd (handleMouseUp e s) = [] \<longleftrightarrow>
           getTileAtPosition s (fst (screenToImage s (clientX e) (clientY e)))
             (snd (screenToImage s (clientX e) (clientY e))) = None)"
    if "\<not> isPanning s \<and> button e = 0 \<and> \<not> shiftKey e \<and>
        0 < scale s \<and> 0 < cellWidth s \<and> 0 < cellHeight s"
    using that by (auto simp add: handleMouseUp_click split: option.split)
  have idx: "index t = row t * colCount s + col t \<and> 0 \<le> index t \<and> index t < totalCells s"
    if "0 < scale s \<and> 0 < cellWidth s \<and> 0 < cellHeight s \<and>
        t \<in> set (snd (handleMouseUp e s))" for t
  proof -
    from that have h: "getTileAtPosition s (fst (screenToImage s (clientX e) (clientY e)))
             (snd (screenToImage s (clientX e) (clientY e))) = Some t"
      by (auto simp add: handleMouseUp_def Let_def split: if_splits option.splits)
    from that have "0 < cellWidth s" and "0 < cellHeight s"
      by simp_all
    note g = hit_in_grid [OF this h]
    show ?thesis
      using row_major_bounds [OF g(1,2,3,4)] by (simp add: g(5) totalCells_def)
  qed
  show ?thesis
    using pan click idx handleMouseUp_at_most_one [of e s] by blast
qed

theorem mouse_up_selects_tile_witness:
  "handleMouseUp (mouseAt 408 343 0 False) sceneViewer =
     (sceneViewer, [\<lparr>index = 1, row = 0, col = 1\<rparr>]) \<and>
   handleMouseUp (mouseAt 418 343 0 False) sceneViewer = (sceneViewer, []) \<and>
   handleMouseUp (mouseAt 408 343 0 False) (sceneViewer\<lparr>isPanning := True\<rparr>) =
     (sceneViewer\<lparr>isPanning := False\<rparr>, [])"
proof -
  have c: "cellWidth sceneViewer = 10" "cellHeight sceneViewer = 10"
    "colCount sceneViewer = 2" "rowCount sceneViewer = 2"
    "imageWidth sceneViewer = 20" "imageHeight sceneViewer = 20"
    by (simp_all add: scene_geometry)
  have p: "screenToImage sceneViewer 408 343 = (10, 5)"
    "screenToImage sceneViewer 418 343 = (20, 5)"
    by (simp_all add: scene_points)
  have t: "getTileAtPosition sceneViewer 10 5 = Some \<lparr>index = 1, row = 0, col = 1\<rparr>"
    "getTileAtPosition sceneViewer 20 5 = None"
    by (simp_all add: scene_hits)
  have n: "\<not> isPanning sceneViewer" "scale sceneViewer = 1"
    by (simp_all add: sceneViewer_eq)
  have e: "button (mouseAt 408 343 0 False) = 0" "\<not> shiftKey (mouseAt 408 343 0 False)"
    "clientX (mouseAt 408 343 0 False) = 408" "clientY (mouseAt 408 343 0 False) = 343"
    "button (mouseAt 418 343 0 False) = 0" "\<not> shiftKey (mouseAt 418 343 0 False)"
    "clientX (mouseAt 418 343 0 False) = 418" "clientY (mouseAt 418 343 0 False) = 343"
    by (simp_all add: mouseAt_def)
  show ?thesis
    using mouse_up_selects_tile [of sceneViewer "mouseAt 408 343 0 False"]
      mouse_up_selects_tile [of sceneViewer "mouseAt 418 343 0 False"]
      mouse_up_selects_tile [of "sceneViewer\<lparr>isPanning := True\<rparr>" "mouseAt 408 343 0 False"]
    by (simp add: n e p t c prod_eq_iff)
qed

text \<open>
  C9. From the idle state, a button press starts a pan exactly when it is a
  press of the auxiliary (middle) button, code 1, or of the primary button, code 0, with
  Shift held; such a press records the pointer position; every other press changes
  nothing.
\<close>

theorem pan_starts_on_middle_or_shift_primary:
  assumes "\<not> isPanning s"
  shows "(isPanning (handleMouseDown e s) \<longleftrightarrow> button e = 1 \<or> (button e = 0 \<and> shiftKey e)) \<and>
         (button e = 1 \<or> (button e = 0 \<and> shiftKey e) \<longrightarrow>
            handleMouseDown e s =
              s\<lparr>isPanning := True, lastMouseX := clientX e, lastMouseY := clientY e\<rparr>) \<and>
         (\<not> (button e = 1 \<or> (button e = 0 \<and> shiftKey e)) \<longrightarrow> handleMouseDown e s = s)"
  using assms by (simp add: handleMouseDown_def)

theorem pan_starts_on_middle_or_shift_primary_witness:
  "\<not> isPanning sceneViewer \<and>
   handleMouseDown (mouseAt 408 343 1 False) sceneViewer =
     sceneViewer\<lparr>isPanning := True, lastMouseX := 408, lastMouseY := 343\<rparr> \<and>
   handleMouseDown (mouseAt 408 343 0 True) sceneViewer =
     sceneViewer\<lparr>isPanning := True, lastMouseX := 408, lastMouseY := 343\<rparr> \<and>
   handleMouseDown (mouseAt 408 343 0 False) sceneViewer = sceneViewer"
proof -
  have n: "\<not> isPanning sceneViewer"
    by (simp add: sceneViewer_eq)
  show ?thesis
    using pan_starts_on_middle_or_shift_primary [OF n, of "mouseAt 408 343 1 False"]
      pan_starts_on_middle_or_shift_primary [OF n, of "mouseAt 408 343 0 True"]
      pan_starts_on_middle_or_shift_primary [OF n, of "mouseAt 408 343 0 False"]
    by (simp add: n mouseAt_def)
qed

text \<open>
  A press of the secondary (right) button, code 2, does not start a pan, and neither does
  a press of the primary button with Control held; a press of the middle button does.
\<close>

theorem secondary_button_does_not_pan:
  "\<not> isPanning sceneViewer \<and>
   \<not> isPanning (handleMouseDown (mouseAt 408 343 2 False) sceneViewer) \<and>
   \<not> isPanning
       (handleMouseDown
          \<lparr>button = 0, shiftKey = False, ctrlKey = True, altKey = False, metaKey = False,
           clientX = 408, clientY = 343\<rparr> sceneViewer) \<and>
   isPanning (handleMouseDown (mouseAt 408 343 1 False) sceneViewer)"
  by (simp add: handleMouseDown_def mouseAt_def sceneViewer_eq)

section \<open>Selection and image load\<close>

lemma handleImageLoad_selection:
  shows "app.selectedTile (handleImageLoad url nm a) = None"
  and "imageUrl (handleImageLoad url nm a) = Some url"
  by (simp_all add: handleImageLoad_def)

lemma handleDrop_image:
  assumes "files = f # rest" and "take 6 (fileType f) = ''image/''"
  shows "handleDrop files a =
           handleImageLoad (objectURL f) (fileName f) (a\<lparr>dragCounter := 0, isDragging := False\<rparr>)"
  using assms by (simp add: handleDrop_def Let_def)

lemma uploadFiles_image:
  assumes "files = f # rest" and "take 6 (fileType f) = ''image/''"
  shows "uploadFiles files a = handleImageLoad (objectURL f) (fileName f) a"
  using assms by (simp add: uploadFiles_def handleFileChange_def)

lemma grid_change_keeps_selection:
  shows "app.selectedTile (handleInput parsed ax a) = app.selectedTile a"
  and "app.selectedTile (toggleMode a) = app.selectedTile a"
  by (simp_all add: handleInput_def toggleMode_def Let_def split: axis.split)

text \<open>
  C10. \<open>handleImageLoad\<close> leaves \<open>selectedTile\<close> at \<open>null\<close>; so does a drop whose first file
  is an image, and so does the upload control when the chosen file is an image. A change
  of a grid parameter or of the grid mode leaves \<open>selectedTile\<close> as it is.
\<close>

theorem image_load_clears_selection:
  "app.selectedTile (handleImageLoad url nm a) = None \<and>
   (\<forall>f rest. files = f # rest \<and> take 6 (fileType f) = ''image/'' \<longrightarrow>
      app.selectedTile (handleDrop files a) = None \<and>
      imageUrl (handleDrop files a) = Some (objectURL f) \<and>
      app.selectedTile (uploadFiles files a) = None \<and>
      imageUrl (uploadFiles files a) = Some (objectURL f)) \<and>
   app.selectedTile (handleInput parsed ax a) = app.selectedTile a \<and>
   app.selectedTile (toggleMode a) = app.selectedTile a"
proof -
  have "app.selectedTile (handleDrop files a) = None \<and>
      imageUrl (handleDrop files a) = Some (objectURL f) \<and>
      app.selectedTile (uploadFiles files a) = None \<and>
      imageUrl (uploadFiles files a) = Some (objectURL f)"
    if "files = f # rest \<and> take 6 (fileType f) = ''image/''" for f rest
    using that handleDrop_image [of files f rest a] uploadFiles_image [of files f rest a]
    by (simp add: handleImageLoad_selection)
  then show ?thesis
    using handleImageLoad_selection(1) [of url nm a] grid_change_keeps_selection(1) [of parsed ax a]
      grid_change_keeps_selection(2) [of a]
    by blast
qed

theorem image_load_clears_selection_witness:
  "app.selectedTile sceneApp = Some \<lparr>index = 1, row = 0, col = 1\<rparr> \<and>
   app.selectedTile (handleDrop [scenePng] sceneApp) = None \<and>
   imageUrl (handleDrop [scenePng] sceneApp) = Some ''blob:second'' \<and>
   app.selectedTile (uploadFiles [scenePng] sceneApp) = None \<and>
   app.selectedTile (handleInput (Some 32) AxisX sceneApp) = Some \<lparr>index = 1, row = 0, col = 1\<rparr> \<and>
   app.selectedTile (toggleMode sceneApp) = Some \<lparr>index = 1, row = 0, col = 1\<rparr>"
proof -
  have f: "take 6 (fileType scenePng) = ''image/''" "objectURL scenePng = ''blob:second''"
    by (simp_all add: scenePng_def)
  have s: "app.selectedTile sceneApp = Some \<lparr>index = 1, row = 0, col = 1\<rparr>"
    by (simp add: sceneApp_def)
  show ?thesis
    using image_load_clears_selection [of "''blob:second''" "''hero.walk.png''" sceneApp
        "[scenePng]" "Some 32" AxisX]
    by (simp add: f s)
qed

end
